theory Spec2Isabelle
  imports Main "HOL-Library.Multiset" "HOL-Library.AList"
begin

section \<open>The platform: errors, Date values, decimal strings\<close>

text \<open>
  The errors the modelled code can raise: \<open>Unauthorized\<close> is the
  \<^verbatim>\<open>throw new Error("Unauthorized")\<close> of the data functions, \<open>RangeError\<close> is what
  date-fns \<^verbatim>\<open>format\<close> and \<^verbatim>\<open>Date.prototype.toISOString\<close> raise on an
  invalid Date, \<open>TypeError\<close> is a property read on \<^verbatim>\<open>null\<close> or \<^verbatim>\<open>undefined\<close>.
\<close>

datatype error = Unauthorized | RangeError | TypeError

definition bnd :: "error + 'a \<Rightarrow> ('a \<Rightarrow> error + 'b) \<Rightarrow> error + 'b" where
  "bnd x f = (case x of Inl e \<Rightarrow> Inl e | Inr v \<Rightarrow> f v)"

text \<open>
  A JavaScript \<^verbatim>\<open>Date\<close> holds a time value: a whole number of milliseconds since the
  epoch, at most 8.64e15 in absolute value, or NaN (an invalid Date). Numbers that hold
  integers (identifiers, \<^verbatim>\<open>order\<close>, \<^verbatim>\<open>setNumber\<close>, time values) are modelled as \<open>int\<close>.
  The local time zone is a fixed offset \<open>tz\<close> in milliseconds (local time is UTC plus
  \<open>tz\<close>); daylight-saving transitions are outside the model.
\<close>

datatype date = InvalidDate | Date int

definition msPerDay :: int where
  "msPerDay = 86400000"

text \<open>
  \<^verbatim>\<open>TimeClip\<close> of ECMAScript: a time value a method computes becomes NaN when it leaves
  the range of a Date.
\<close>

definition maxTime :: int where
  "maxTime = 8640000000000000"

definition timeClip :: "int \<Rightarrow> date" where
  "timeClip v = (if \<bar>v\<bar> > maxTime then InvalidDate else Date v)"

text \<open>\<^verbatim>\<open>isNaN(date.getTime())\<close>\<close>

fun isInvalid :: "date \<Rightarrow> bool" where
  "isInvalid InvalidDate = True"
| "isInvalid (Date t) = False"

text \<open>
  The proleptic Gregorian calendar of ECMAScript: the day number (days since
  1970-01-01) of a civil date, and back. Months are 1..12 here.
\<close>

definition daysFromCivil :: "int \<Rightarrow> int \<Rightarrow> int \<Rightarrow> int" where
  "daysFromCivil y m d =
     (let y1 = (if m \<le> 2 then y - 1 else y);
          era = y1 div 400;
          yoe = y1 - era * 400;
          doy = (153 * (if m > 2 then m - 3 else m + 9) + 2) div 5 + d - 1;
          doe = yoe * 365 + yoe div 4 - yoe div 100 + doy
      in era * 146097 + doe - 719468)"

definition civilFromDays :: "int \<Rightarrow> int \<times> int \<times> int" where
  "civilFromDays z0 =
     (let z = z0 + 719468;
          era = z div 146097;
          doe = z - era * 146097;
          yoe = (doe - doe div 1460 + doe div 36524 - doe div 146096) div 365;
          doy = doe - (365 * yoe + yoe div 4 - yoe div 100);
          mp = (5 * doy + 2) div 153;
          d = doy - (153 * mp + 2) div 5 + 1;
          m = (if mp < 10 then mp + 3 else mp - 9)
      in (if m \<le> 2 then yoe + era * 400 + 1 else yoe + era * 400, m, d))"

text \<open>
  The instant \<open>ms\<close> milliseconds into the local day of a civil date; with \<open>ms = 0\<close> it
  is \<^verbatim>\<open>new Date(year, monthIndex, day)\<close> (month 1..12 here). The value is taken as it
  is: for the years and the zone offsets of a real clock it lies inside the range of a
  Date.
\<close>

definition localInstant :: "int \<Rightarrow> int \<Rightarrow> int \<Rightarrow> int \<Rightarrow> int \<Rightarrow> date" where
  "localInstant tz y m d ms = Date (daysFromCivil y m d * msPerDay + ms - tz)"

text \<open>\<^verbatim>\<open>new Date(date)\<close> copies the time value.\<close>

definition newDate :: "date \<Rightarrow> date" where
  "newDate d = d"

text \<open>The time value of local midnight of the local day that holds \<open>t\<close>.\<close>

definition dayStart :: "int \<Rightarrow> int \<Rightarrow> int" where
  "dayStart tz t = ((t + tz) div msPerDay) * msPerDay - tz"

text \<open>
  \<^verbatim>\<open>date.setHours(h, m, s, ms)\<close>: the local day is kept and the time of day replaced,
  and the new time value goes through \<^verbatim>\<open>TimeClip\<close>; an invalid Date stays invalid.
\<close>

fun setHours :: "int \<Rightarrow> date \<Rightarrow> int \<Rightarrow> int \<Rightarrow> int \<Rightarrow> int \<Rightarrow> date" where
  "setHours tz InvalidDate h m s ms = InvalidDate"
| "setHours tz (Date t) h m s ms =
     timeClip (dayStart tz t + h * 3600000 + m * 60000 + s * 1000 + ms)"

text \<open>The local calendar fields of a valid time value: year, month (1..12), day of month.\<close>

definition localFields :: "int \<Rightarrow> int \<Rightarrow> int \<times> int \<times> int" where
  "localFields tz t = civilFromDays ((t + tz) div msPerDay)"

text \<open>\<^verbatim>\<open>String(n)\<close> for a whole number.\<close>

definition digitChar :: "nat \<Rightarrow> char" where
  "digitChar n = ''0123456789'' ! (n mod 10)"

function showNat :: "nat \<Rightarrow> string" where
  "showNat n = (if n < 10 then [digitChar n] else showNat (n div 10) @ [digitChar (n mod 10)])"
  by pat_completeness auto
termination
  by (relation "measure id") auto

declare showNat.simps [simp del]

definition showInt :: "int \<Rightarrow> string" where
  "showInt i = (if i < 0 then CHR ''-'' # showNat (nat (- i)) else showNat (nat i))"

text \<open>date-fns \<^verbatim>\<open>addLeadingZeros(number, targetLength)\<close>.\<close>

definition addLeadingZeros :: "int \<Rightarrow> nat \<Rightarrow> string" where
  "addLeadingZeros n len =
     (let ds = showNat (nat \<bar>n\<bar>)
      in (if n < 0 then ''-'' else '''') @ replicate (len - length ds) (CHR ''0'') @ ds)"

text \<open>
  \<^verbatim>\<open>parseInt(s)\<close> with no radix, on strings without a hexadecimal prefix: leading
  white space is skipped, a sign is read, then the longest run of decimal digits;
  with no digit the result is NaN, modelled as \<open>None\<close>.
\<close>

definition isDigit :: "char \<Rightarrow> bool" where
  "isDigit c = (c \<in> set ''0123456789'')"

definition digitVal :: "char \<Rightarrow> int" where
  "digitVal c =
     (case map_of (zip ''0123456789'' [0, 1, 2, 3, 4, 5, 6, 7, 8, 9]) c of
        None \<Rightarrow> 0
      | Some v \<Rightarrow> v)"

definition parseInt :: "string \<Rightarrow> int option" where
  "parseInt s =
     (let s1 = dropWhile (\<lambda>c. c = CHR '' '') s;
          neg = (s1 \<noteq> [] \<and> hd s1 = CHR ''-'');
          s2 = (if s1 \<noteq> [] \<and> (hd s1 = CHR ''-'' \<or> hd s1 = CHR ''+'') then tl s1 else s1);
          ds = takeWhile isDigit s2
      in if ds = [] then None
         else Some ((if neg then - 1 else 1) * foldl (\<lambda>a c. 10 * a + digitVal c) 0 ds))"

text \<open>The remainder operator \<^verbatim>\<open>%\<close> of JavaScript: the sign follows the dividend.\<close>

definition jsRem :: "int \<Rightarrow> int \<Rightarrow> int" where
  "jsRem a b = (if a < 0 then - ((- a) mod \<bar>b\<bar>) else a mod \<bar>b\<bar>)"

section \<open>date-fns \<^verbatim>\<open>format\<close>, for the three patterns the code uses\<close>

datatype pattern = Pat_d | Pat_MMM | Pat_yyyy

definition monthAbbrev :: "int \<Rightarrow> string" where
  "monthAbbrev m =
     [''Jan'', ''Feb'', ''Mar'', ''Apr'', ''May'', ''Jun'',
      ''Jul'', ''Aug'', ''Sep'', ''Oct'', ''Nov'', ''Dec''] ! nat (m - 1)"

text \<open>
  \<^verbatim>\<open>format(date, pattern)\<close> raises a RangeError on an invalid Date. \<^verbatim>\<open>'d'\<close> is the day
  of the month with no leading zero, \<^verbatim>\<open>'MMM'\<close> the abbreviated month name, \<^verbatim>\<open>'yyyy'\<close>
  the year padded to four digits (a year before 1 is shown as \<open>1 - year\<close>).
\<close>

fun format :: "int \<Rightarrow> date \<Rightarrow> pattern \<Rightarrow> error + string" where
  "format tz InvalidDate p = Inl RangeError"
| "format tz (Date t) p =
     (case localFields tz t of (y, m, d) \<Rightarrow>
        (case p of
           Pat_d \<Rightarrow> Inr (showInt d)
         | Pat_MMM \<Rightarrow> Inr (monthAbbrev m)
         | Pat_yyyy \<Rightarrow> Inr (addLeadingZeros (if y > 0 then y else 1 - y) 4)))"

section \<open>\<^verbatim>\<open>formatDateWithOrdinal\<close> (src/lib/date-utils.ts)\<close>

text \<open>
  The closure \<^verbatim>\<open>suffix\<close>: \<^verbatim>\<open>num > 3 && num < 21\<close> gives \<^verbatim>\<open>'th'\<close>, otherwise the switch on
  \<^verbatim>\<open>num % 10\<close>. On NaN both comparisons are false and the switch takes its default.
\<close>

definition suffix :: "string \<Rightarrow> string" where
  "suffix day =
     (case parseInt day of
        None \<Rightarrow> ''th''
      | Some num \<Rightarrow>
          if num > 3 \<and> num < 21 then ''th''
          else if jsRem num 10 = 1 then ''st''
          else if jsRem num 10 = 2 then ''nd''
          else if jsRem num 10 = 3 then ''rd''
          else ''th'')"

definition formatDateWithOrdinal :: "int \<Rightarrow> date \<Rightarrow> error + string" where
  "formatDateWithOrdinal tz date =
     bnd (format tz date Pat_d) (\<lambda>day.
     bnd (format tz date Pat_MMM) (\<lambda>month.
     bnd (format tz date Pat_yyyy) (\<lambda>year.
       Inr (day @ suffix day @ '' '' @ month @ '' '' @ year))))"

text \<open>
  The modulo-100 rule as the specification words it: \<^verbatim>\<open>d % 100\<close> in 11..13 gives
  \<^verbatim>\<open>"th"\<close>, otherwise by \<^verbatim>\<open>d % 10\<close>.
\<close>

definition ordinalSuffixMod100 :: "int \<Rightarrow> string" where
  "ordinalSuffixMod100 d =
     (if 11 \<le> d mod 100 \<and> d mod 100 \<le> 13 then ''th''
      else if d mod 10 = 1 then ''st''
      else if d mod 10 = 2 then ''nd''
      else if d mod 10 = 3 then ''rd''
      else ''th'')"

section \<open>The joined rows (src/db/schema.ts)\<close>

text \<open>
  The columns of the four tables that the query and the transformation read. A
  \<^verbatim>\<open>timestamp\<close> column holds a valid time value; \<^verbatim>\<open>numeric\<close> is read as a string.
\<close>

record workouts_row =
  w_id :: int
  w_userId :: string
  w_name :: "string option"
  w_startedAt :: int
  w_completedAt :: "int option"

record workoutExercises_row =
  we_id :: int
  we_workoutId :: int
  we_exerciseId :: int
  we_order :: int

record exercises_row =
  e_id :: int
  e_name :: string

record sets_row =
  s_id :: int
  s_workoutExerciseId :: int
  s_setNumber :: int
  s_weight :: "string option"
  s_reps :: "int option"
  s_durationSeconds :: "int option"

text \<open>One row of the select: each branch of the left-join chain may be \<^verbatim>\<open>null\<close>.\<close>

record row =
  row_workout :: "workouts_row option"
  row_workoutExercise :: "workoutExercises_row option"
  row_exercise :: "exercises_row option"
  row_set :: "sets_row option"

section \<open>The result types of \<^verbatim>\<open>getWorkoutsForDate\<close>\<close>

record WorkoutSet =
  ws_setNumber :: int
  ws_weight :: "string option"
  ws_reps :: "int option"
  ws_durationSeconds :: "int option"

record WorkoutExercise =
  wx_name :: string
  wx_sets :: "WorkoutSet list"

record WorkoutWithExercises =
  wo_id :: int
  wo_name :: "string option"
  wo_startedAt :: int
  wo_completedAt :: "int option"
  wo_exercises :: "WorkoutExercise list"

text \<open>
  A JavaScript \<^verbatim>\<open>Map\<close> keyed by numbers iterates in insertion order: an association
  list with one pair per key. \<^verbatim>\<open>set\<close> on a key that is present replaces the value in
  place, on a new key it appends the pair.
\<close>

type_synonym 'v jsMap = "(int \<times> 'v) list"

definition Map_has :: "'v jsMap \<Rightarrow> int \<Rightarrow> bool" where
  "Map_has m k = (map_of m k \<noteq> None)"

definition Map_get :: "'v jsMap \<Rightarrow> int \<Rightarrow> 'v option" where
  "Map_get m k = map_of m k"

definition Map_set :: "'v jsMap \<Rightarrow> int \<Rightarrow> 'v \<Rightarrow> 'v jsMap" where
  "Map_set m k v = AList.update k v m"

definition Map_values :: "'v jsMap \<Rightarrow> 'v list" where
  "Map_values m = map snd m"

text \<open>The value type of the inner map, and the local type \<^verbatim>\<open>WorkoutWithExerciseMap\<close>.\<close>

record ExerciseEntry =
  me_name :: string
  me_order :: int
  me_sets :: "WorkoutSet list"

record WorkoutWithExerciseMap =
  wm_id :: int
  wm_name :: "string option"
  wm_startedAt :: int
  wm_completedAt :: "int option"
  wm_exercises :: "ExerciseEntry jsMap"

section \<open>The transformation of \<^verbatim>\<open>getWorkoutsForDate\<close>: flat rows to nested workouts\<close>

text \<open>
  Reading a property of \<^verbatim>\<open>null\<close> raises a TypeError: every read of a branch of the
  row goes through \<open>deref\<close>, and the guards of the source are tests on the branch.
\<close>

definition deref :: "'a option \<Rightarrow> error + 'a" where
  "deref x = (case x of None \<Rightarrow> Inl TypeError | Some v \<Rightarrow> Inr v)"

definition newWorkout :: "workouts_row \<Rightarrow> WorkoutWithExerciseMap" where
  "newWorkout rw =
     \<lparr>wm_id = w_id rw, wm_name = w_name rw, wm_startedAt = w_startedAt rw,
      wm_completedAt = w_completedAt rw, wm_exercises = []\<rparr>"

definition newSet :: "sets_row \<Rightarrow> WorkoutSet" where
  "newSet rs =
     \<lparr>ws_setNumber = s_setNumber rs, ws_weight = s_weight rs, ws_reps = s_reps rs,
      ws_durationSeconds = s_durationSeconds rs\<rparr>"

text \<open>
  The three statements of the loop body that change a map. The objects held by the maps
  are mutated in place in the source; here the changed object is written back under its
  key, which keeps its position.
  \<^item> \<^verbatim>\<open>if (!workoutsMap.has(workoutId)) workoutsMap.set(workoutId, {...})\<close>
  \<^item> \<^verbatim>\<open>if (!workout.exercises.has(exerciseId)) workout.exercises.set(exerciseId, {...})\<close>
  \<^item> \<^verbatim>\<open>const exercise = workout.exercises.get(exerciseId); if (exercise) exercise.sets.push({...})\<close>
\<close>

definition ensureWorkout ::
  "WorkoutWithExerciseMap jsMap \<Rightarrow> workouts_row \<Rightarrow> WorkoutWithExerciseMap jsMap" where
  "ensureWorkout workoutsMap rw =
     (if \<not> Map_has workoutsMap (w_id rw)
      then Map_set workoutsMap (w_id rw) (newWorkout rw)
      else workoutsMap)"

definition ensureExercise ::
  "ExerciseEntry jsMap \<Rightarrow> exercises_row \<Rightarrow> workoutExercises_row \<Rightarrow> ExerciseEntry jsMap" where
  "ensureExercise exs re rwe =
     (if \<not> Map_has exs (e_id re)
      then Map_set exs (e_id re)
             \<lparr>me_name = e_name re, me_order = we_order rwe, me_sets = []\<rparr>
      else exs)"

definition pushSet :: "ExerciseEntry jsMap \<Rightarrow> int \<Rightarrow> sets_row \<Rightarrow> ExerciseEntry jsMap" where
  "pushSet exs exerciseId rs =
     (case Map_get exs exerciseId of
        None \<Rightarrow> exs
      | Some exercise \<Rightarrow>
          Map_set exs exerciseId (exercise\<lparr>me_sets := me_sets exercise @ [newSet rs]\<rparr>))"

text \<open>
  The body of \<^verbatim>\<open>for (const row of workoutsData)\<close>. \<open>Inr\<close> of the map as it stands is
  a \<^verbatim>\<open>continue\<close>. The branches \<^verbatim>\<open>row.exercise\<close> and \<^verbatim>\<open>row.workoutExercise\<close> are both
  dereferenced right after the guard that tests them, \<^verbatim>\<open>row.set\<close> right after its own
  (the source reads \<^verbatim>\<open>row.workoutExercise.order\<close> only when it creates the entry: the
  earlier read here can add a failure, never hide one).
\<close>

definition loopBody ::
  "WorkoutWithExerciseMap jsMap \<Rightarrow> row \<Rightarrow> error + WorkoutWithExerciseMap jsMap" where
  "loopBody workoutsMap r =
     (if row_workout r = None then Inr workoutsMap
      else
        bnd (deref (row_workout r)) (\<lambda>rw.
        let workoutId = w_id rw;
            m1 = ensureWorkout workoutsMap rw
        in case Map_get m1 workoutId of
             None \<Rightarrow> Inr m1
           | Some workout \<Rightarrow>
               if row_exercise r \<noteq> None \<and> row_workoutExercise r \<noteq> None then
                 bnd (deref (row_exercise r)) (\<lambda>re.
                 bnd (deref (row_workoutExercise r)) (\<lambda>rwe.
                 let exerciseId = e_id re;
                     ex1 = ensureExercise (wm_exercises workout) re rwe
                 in bnd (if row_set r \<noteq> None
                         then bnd (deref (row_set r)) (\<lambda>rs. Inr (pushSet ex1 exerciseId rs))
                         else Inr ex1) (\<lambda>ex2.
                    Inr (Map_set m1 workoutId (workout\<lparr>wm_exercises := ex2\<rparr>)))))
               else Inr m1))"

fun forRows ::
  "WorkoutWithExerciseMap jsMap \<Rightarrow> row list \<Rightarrow> error + WorkoutWithExerciseMap jsMap" where
  "forRows workoutsMap [] = Inr workoutsMap"
| "forRows workoutsMap (r # rows) = bnd (loopBody workoutsMap r) (\<lambda>m. forRows m rows)"

text \<open>
  \<^verbatim>\<open>Array.prototype.sort\<close> is stable, and the comparators \<^verbatim>\<open>a.order - b.order\<close> and
  \<^verbatim>\<open>a.setNumber - b.setNumber\<close> order whole numbers by one key: the result is the
  stable sort by that key, \<open>sort_key\<close>. The destructuring \<^verbatim>\<open>({ order, ...exercise })\<close>
  drops \<^verbatim>\<open>order\<close>.
\<close>

definition toWorkoutExercise :: "ExerciseEntry \<Rightarrow> WorkoutExercise" where
  "toWorkoutExercise x =
     \<lparr>wx_name = me_name x, wx_sets = sort_key ws_setNumber (me_sets x)\<rparr>"

definition toWorkoutWithExercises :: "WorkoutWithExerciseMap \<Rightarrow> WorkoutWithExercises" where
  "toWorkoutWithExercises workout =
     \<lparr>wo_id = wm_id workout, wo_name = wm_name workout, wo_startedAt = wm_startedAt workout,
      wo_completedAt = wm_completedAt workout,
      wo_exercises =
        map toWorkoutExercise (sort_key me_order (Map_values (wm_exercises workout)))\<rparr>"

text \<open>From \<^verbatim>\<open>const workoutsMap = new Map()\<close> to the \<^verbatim>\<open>return\<close>.\<close>

definition transform :: "row list \<Rightarrow> error + WorkoutWithExercises list" where
  "transform workoutsData =
     bnd (forRows [] workoutsData) (\<lambda>workoutsMap.
       Inr (map toWorkoutWithExercises (Map_values workoutsMap)))"

section \<open>What the rows say: the vocabulary of the properties\<close>

text \<open>
  A row belongs to workout \<open>k\<close> when its workout branch is present with that id. It
  contributes exercise \<open>e\<close> to workout \<open>k\<close> when, besides, its exercise branch is
  present with id \<open>e\<close> and its join record is present: the two guards of the loop body.
\<close>

definition inWorkout :: "int \<Rightarrow> row \<Rightarrow> bool" where
  "inWorkout k r = (map_option w_id (row_workout r) = Some k)"

definition hasExercise :: "int \<Rightarrow> int \<Rightarrow> row \<Rightarrow> bool" where
  "hasExercise k e r =
     (inWorkout k r \<and> map_option e_id (row_exercise r) = Some e \<and> row_workoutExercise r \<noteq> None)"

text \<open>The set records a row contributes to exercise \<open>e\<close> of workout \<open>k\<close>: none or one.\<close>

definition setsOfRow :: "int \<Rightarrow> int \<Rightarrow> row \<Rightarrow> WorkoutSet list" where
  "setsOfRow k e r =
     (if hasExercise k e r then (case row_set r of None \<Rightarrow> [] | Some rs \<Rightarrow> [newSet rs]) else [])"

text \<open>
  The entry the loop body creates from a row at first sight of its exercise: the name of
  the exercise branch, the order of the join record, no sets.
\<close>

definition entryOfRow :: "row \<Rightarrow> ExerciseEntry" where
  "entryOfRow r =
     \<lparr>me_name = (case row_exercise r of None \<Rightarrow> [] | Some re \<Rightarrow> e_name re),
      me_order = (case row_workoutExercise r of None \<Rightarrow> 0 | Some rwe \<Rightarrow> we_order rwe),
      me_sets = []\<rparr>"

text \<open>The entry of exercise \<open>e\<close> within workout \<open>k\<close> of a map of workouts.\<close>

definition lookupExercise :: "WorkoutWithExerciseMap jsMap \<Rightarrow> int \<Rightarrow> int \<Rightarrow> ExerciseEntry option" where
  "lookupExercise m k e = (case map_of m k of None \<Rightarrow> None | Some w \<Rightarrow> map_of (wm_exercises w) e)"

text \<open>The set records of all rows for exercise \<open>e\<close> of workout \<open>k\<close>, in row order.\<close>

definition rawSets :: "int \<Rightarrow> int \<Rightarrow> row list \<Rightarrow> WorkoutSet list" where
  "rawSets k e rows = concat (map (setsOfRow k e) rows)"

definition workoutFields :: "WorkoutWithExerciseMap \<Rightarrow> int \<times> string option \<times> int \<times> int option" where
  "workoutFields w = (wm_id w, wm_name w, wm_startedAt w, wm_completedAt w)"

text \<open>
  The distinct workout ids of the rows, and the distinct exercise ids the rows contribute
  to a workout.
\<close>

definition workoutIds :: "row list \<Rightarrow> int set" where
  "workoutIds rows = {k. \<exists>r\<in>set rows. inWorkout k r}"

definition exerciseIds :: "row list \<Rightarrow> int \<Rightarrow> int set" where
  "exerciseIds rows k = {e. \<exists>r\<in>set rows. hasExercise k e r}"

text \<open>
  The name and the \<^verbatim>\<open>order\<close> of exercise \<open>e\<close> in workout \<open>k\<close> as the rows give them: those of
  the first row that contributes the exercise. \<open>exerciseOut\<close> is the exercise as it is
  returned: that name, and the set records of the rows sorted by \<^verbatim>\<open>setNumber\<close>.
\<close>

definition sourceName :: "row list \<Rightarrow> int \<Rightarrow> int \<Rightarrow> string" where
  "sourceName rows k e =
     (case find (hasExercise k e) rows of None \<Rightarrow> [] | Some r \<Rightarrow> me_name (entryOfRow r))"

definition sourceOrder :: "row list \<Rightarrow> int \<Rightarrow> int \<Rightarrow> int" where
  "sourceOrder rows k e =
     (case find (hasExercise k e) rows of None \<Rightarrow> 0 | Some r \<Rightarrow> me_order (entryOfRow r))"

definition exerciseOut :: "row list \<Rightarrow> int \<Rightarrow> int \<Rightarrow> WorkoutExercise" where
  "exerciseOut rows k e =
     \<lparr>wx_name = sourceName rows k e, wx_sets = sort_key ws_setNumber (rawSets k e rows)\<rparr>"

text \<open>Every inner map holds one pair per exercise id.\<close>

definition exercisesDistinct :: "WorkoutWithExerciseMap jsMap \<Rightarrow> bool" where
  "exercisesDistinct m = (\<forall>k w. map_of m k = Some w \<longrightarrow> distinct (map fst (wm_exercises w)))"



section \<open>Sample rows\<close>

text \<open>
  One workout with two exercises, whose rows arrive with the sets out of order and the
  exercises against their \<^verbatim>\<open>order\<close>; one workout with no exercise; one row with no
  workout.
\<close>

definition legDay :: workouts_row where
  "legDay = \<lparr>w_id = 1, w_userId = ''user_1'', w_name = Some ''Leg Day'',
     w_startedAt = 1756717200000, w_completedAt = None\<rparr>"

definition restDay :: workouts_row where
  "restDay = \<lparr>w_id = 2, w_userId = ''user_1'', w_name = None,
     w_startedAt = 1756710000000, w_completedAt = Some 1756713600000\<rparr>"

definition squatSet :: "int \<Rightarrow> int \<Rightarrow> row" where
  "squatSet sid n =
     \<lparr>row_workout = Some legDay,
      row_workoutExercise = Some \<lparr>we_id = 10, we_workoutId = 1, we_exerciseId = 100, we_order = 1\<rparr>,
      row_exercise = Some \<lparr>e_id = 100, e_name = ''Squat''\<rparr>,
      row_set = Some \<lparr>s_id = sid, s_workoutExerciseId = 10, s_setNumber = n,
        s_weight = Some ''225'', s_reps = Some 5, s_durationSeconds = None\<rparr>\<rparr>"

definition lungeRow :: row where
  "lungeRow =
     \<lparr>row_workout = Some legDay,
      row_workoutExercise = Some \<lparr>we_id = 11, we_workoutId = 1, we_exerciseId = 101, we_order = 0\<rparr>,
      row_exercise = Some \<lparr>e_id = 101, e_name = ''Lunge''\<rparr>,
      row_set = None\<rparr>"

definition restRow :: row where
  "restRow = \<lparr>row_workout = Some restDay, row_workoutExercise = None, row_exercise = None,
     row_set = None\<rparr>"

definition nullRow :: row where
  "nullRow = \<lparr>row_workout = None, row_workoutExercise = None, row_exercise = None,
     row_set = None\<rparr>"

definition sampleRows :: "row list" where
  "sampleRows = [squatSet 1001 2, lungeRow, nullRow, squatSet 1000 1, restRow]"

definition sampleLegDay :: WorkoutWithExercises where
  "sampleLegDay =
     \<lparr>wo_id = 1, wo_name = Some ''Leg Day'', wo_startedAt = 1756717200000, wo_completedAt = None,
      wo_exercises =
        [\<lparr>wx_name = ''Lunge'', wx_sets = []\<rparr>,
         \<lparr>wx_name = ''Squat'', wx_sets =
            [\<lparr>ws_setNumber = 1, ws_weight = Some ''225'', ws_reps = Some 5, ws_durationSeconds = None\<rparr>,
             \<lparr>ws_setNumber = 2, ws_weight = Some ''225'', ws_reps = Some 5, ws_durationSeconds = None\<rparr>]\<rparr>]\<rparr>"

definition sampleRestDay :: WorkoutWithExercises where
  "sampleRestDay =
     \<lparr>wo_id = 2, wo_name = None, wo_startedAt = 1756710000000,
      wo_completedAt = Some 1756713600000, wo_exercises = []\<rparr>"

text \<open>The map of workouts after the first sample row.\<close>

definition afterFirstRow :: "WorkoutWithExerciseMap jsMap" where
  "afterFirstRow =
     [(1, \<lparr>wm_id = 1, wm_name = Some ''Leg Day'', wm_startedAt = 1756717200000,
           wm_completedAt = None,
           wm_exercises =
             [(100, \<lparr>me_name = ''Squat'', me_order = 1, me_sets =
                [\<lparr>ws_setNumber = 2, ws_weight = Some ''225'', ws_reps = Some 5,
                  ws_durationSeconds = None\<rparr>]\<rparr>)]\<rparr>)]"

section \<open>The query of \<^verbatim>\<open>getWorkoutsForDate\<close>\<close>

text \<open>The four tables, each a list of its rows.\<close>

record database =
  db_workouts :: "workouts_row list"
  db_workoutExercises :: "workoutExercises_row list"
  db_exercises :: "exercises_row list"
  db_sets :: "sets_row list"

text \<open>
  The chain \<^verbatim>\<open>from(workouts).leftJoin(workoutExercises, ...).leftJoin(exercises, ...)
  .leftJoin(sets, ...)\<close>, innermost join first. A left join keeps a row with no match and
  fills the joined branch with \<^verbatim>\<open>null\<close>. Sets are matched on the id of the join record,
  exercises on its exercise id.
\<close>

definition joinSets ::
  "database \<Rightarrow> workouts_row \<Rightarrow> workoutExercises_row \<Rightarrow> exercises_row option \<Rightarrow> row list" where
  "joinSets db w we eo =
     (let ss = filter (\<lambda>s. s_workoutExerciseId s = we_id we) (db_sets db)
      in if ss = []
         then [\<lparr>row_workout = Some w, row_workoutExercise = Some we, row_exercise = eo,
                 row_set = None\<rparr>]
         else map (\<lambda>s. \<lparr>row_workout = Some w, row_workoutExercise = Some we, row_exercise = eo,
                          row_set = Some s\<rparr>) ss)"

definition joinExercises :: "database \<Rightarrow> workouts_row \<Rightarrow> workoutExercises_row \<Rightarrow> row list" where
  "joinExercises db w we =
     (let es = filter (\<lambda>e. e_id e = we_exerciseId we) (db_exercises db)
      in if es = [] then joinSets db w we None
         else concat (map (\<lambda>e. joinSets db w we (Some e)) es))"

definition joinWorkoutExercises :: "database \<Rightarrow> workouts_row \<Rightarrow> row list" where
  "joinWorkoutExercises db w =
     (let wes = filter (\<lambda>we. we_workoutId we = w_id w) (db_workoutExercises db)
      in if wes = []
         then [\<lparr>row_workout = Some w, row_workoutExercise = None, row_exercise = None,
                 row_set = None\<rparr>]
         else concat (map (joinExercises db w) wes))"

definition leftJoins :: "database \<Rightarrow> row list" where
  "leftJoins db = concat (map (joinWorkoutExercises db) (db_workouts db))"

text \<open>
  The \<^verbatim>\<open>where\<close> clause: \<^verbatim>\<open>eq(workouts.userId, userId)\<close>,
  \<^verbatim>\<open>gte(workouts.startedAt, startOfDay)\<close>, \<^verbatim>\<open>lt(workouts.startedAt, endOfDay)\<close>.
\<close>

definition whereClause :: "string \<Rightarrow> int \<Rightarrow> int \<Rightarrow> row \<Rightarrow> bool" where
  "whereClause userId s e r =
     (case row_workout r of
        None \<Rightarrow> False
      | Some w \<Rightarrow> w_userId w = userId \<and> w_startedAt w \<ge> s \<and> w_startedAt w < e)"

text \<open>
  The select as a whole, with \<^verbatim>\<open>orderBy(desc(workouts.startedAt))\<close> as a stable sort
  (the database leaves the order of rows with equal start times open). The bounds are
  sent to the driver through \<^verbatim>\<open>toISOString\<close>, which raises a RangeError on an invalid
  Date.
\<close>

definition selectWorkoutsData :: "database \<Rightarrow> string \<Rightarrow> date \<Rightarrow> date \<Rightarrow> error + row list" where
  "selectWorkoutsData db userId startOfDay endOfDay =
     (case startOfDay of
        InvalidDate \<Rightarrow> Inl RangeError
      | Date s \<Rightarrow>
          (case endOfDay of
             InvalidDate \<Rightarrow> Inl RangeError
           | Date e \<Rightarrow>
               Inr (sort_key (\<lambda>r. case row_workout r of None \<Rightarrow> 0 | Some w \<Rightarrow> - w_startedAt w)
                      (filter (whereClause userId s e) (leftJoins db)))))"

section \<open>\<^verbatim>\<open>getWorkoutsForDate\<close> (src/lib/date-utils.ts)\<close>

text \<open>
  The start and the end of the selected date: \<^verbatim>\<open>new Date(date)\<close> with
  \<^verbatim>\<open>setHours(0, 0, 0, 0)\<close>, and with \<^verbatim>\<open>setHours(23, 59, 59, 999)\<close>.
\<close>

definition dayBounds :: "int \<Rightarrow> date \<Rightarrow> date \<times> date" where
  "dayBounds tz date =
     (setHours tz (newDate date) 0 0 0 0, setHours tz (newDate date) 23 59 59 999)"

text \<open>A query as it is issued: the user id and the two bounds.\<close>

record query =
  q_userId :: string
  q_startOfDay :: date
  q_endOfDay :: date

text \<open>
  The function takes what \<^verbatim>\<open>auth()\<close> yields as \<^verbatim>\<open>userId\<close> (\<open>None\<close> is \<^verbatim>\<open>null\<close>; the
  empty string is falsy as well) and the database, and returns the queries it issued
  together with its result or the error it threw.
\<close>

definition getWorkoutsForDate ::
  "int \<Rightarrow> string option \<Rightarrow> database \<Rightarrow> date \<Rightarrow> query list \<times> (error + WorkoutWithExercises list)" where
  "getWorkoutsForDate tz authUserId db date =
     (case authUserId of
        None \<Rightarrow> ([], Inl Unauthorized)
      | Some userId \<Rightarrow>
          if userId = [] then ([], Inl Unauthorized)
          else
            (case dayBounds tz date of (startOfDay, endOfDay) \<Rightarrow>
               ([\<lparr>q_userId = userId, q_startOfDay = startOfDay, q_endOfDay = endOfDay\<rparr>],
                bnd (selectWorkoutsData db userId startOfDay endOfDay) transform)))"

section \<open>The callers' guard against an invalid Date\<close>

text \<open>
  The dashboard page (\<^verbatim>\<open>DashboardPage\<close>): the date is \<^verbatim>\<open>new Date(year, month - 1, day)\<close>
  when the \<^verbatim>\<open>date\<close> parameter has the form YYYY-MM-DD (\<open>Some\<close> of that Date here) and
  \<^verbatim>\<open>new Date()\<close> otherwise; then \<^verbatim>\<open>if (isNaN(date.getTime())) date = new Date()\<close>. The
  current moment \<open>now\<close> is a valid time value.
\<close>

definition dashboardPageDate :: "int \<Rightarrow> date option \<Rightarrow> date" where
  "dashboardPageDate now parsed =
     (let date = (case parsed of Some d \<Rightarrow> d | None \<Rightarrow> Date now)
      in if isInvalid date then Date now else date)"


section \<open>A sample database\<close>

definition sampleDb :: database where
  "sampleDb =
     \<lparr>db_workouts =
        [\<lparr>w_id = 1, w_userId = ''user_1'', w_name = Some ''Leg Day'',
          w_startedAt = 1756684800000, w_completedAt = None\<rparr>,
         \<lparr>w_id = 2, w_userId = ''user_1'', w_name = None,
          w_startedAt = 1756771200000, w_completedAt = None\<rparr>,
         \<lparr>w_id = 3, w_userId = ''user_1'', w_name = Some ''Late'',
          w_startedAt = 1756771199999, w_completedAt = None\<rparr>],
      db_workoutExercises =
        [\<lparr>we_id = 10, we_workoutId = 1, we_exerciseId = 100, we_order = 0\<rparr>],
      db_exercises = [\<lparr>e_id = 100, e_name = ''Squat''\<rparr>],
      db_sets =
        [\<lparr>s_id = 1000, s_workoutExerciseId = 10, s_setNumber = 1, s_weight = Some ''225'',
          s_reps = Some 5, s_durationSeconds = None\<rparr>]\<rparr>"


section \<open>Consistent rows\<close>

text \<open>
  What the rows of one query return that agree with each other: the workout id and the
  exercise id a row contributes (if any), and its set record (if any).
\<close>

definition rowWorkoutId :: "row \<Rightarrow> int option" where
  "rowWorkoutId r = map_option w_id (row_workout r)"

definition rowExerciseId :: "row \<Rightarrow> int option" where
  "rowExerciseId r =
     (if row_workout r \<noteq> None \<and> row_workoutExercise r \<noteq> None
      then map_option e_id (row_exercise r) else None)"

definition rowSets :: "row \<Rightarrow> WorkoutSet list" where
  "rowSets r = (case row_set r of None \<Rightarrow> [] | Some rs \<Rightarrow> [newSet rs])"

text \<open>Two rows of the same workout, and two such rows that both contribute an exercise.\<close>

definition sameWorkout :: "row \<Rightarrow> row \<Rightarrow> bool" where
  "sameWorkout r1 r2 = (rowWorkoutId r1 \<noteq> None \<and> rowWorkoutId r1 = rowWorkoutId r2)"

definition bothExercises :: "row \<Rightarrow> row \<Rightarrow> bool" where
  "bothExercises r1 r2 =
     (sameWorkout r1 r2 \<and> rowExerciseId r1 \<noteq> None \<and> rowExerciseId r2 \<noteq> None)"

text \<open>Rows with the same workout id carry the same id, name, start and completion time.\<close>

definition consistentWorkouts :: "row list \<Rightarrow> bool" where
  "consistentWorkouts rows =
     (\<forall>r1\<in>set rows. \<forall>r2\<in>set rows. sameWorkout r1 r2 \<longrightarrow>
        map_option newWorkout (row_workout r1) = map_option newWorkout (row_workout r2))"

text \<open>
  Within a workout, rows that contribute the same exercise id carry the same exercise
  name; and they carry the same \<^verbatim>\<open>order\<close>.
\<close>

definition consistentNames :: "row list \<Rightarrow> bool" where
  "consistentNames rows =
     (\<forall>r1\<in>set rows. \<forall>r2\<in>set rows.
        bothExercises r1 r2 \<and> rowExerciseId r1 = rowExerciseId r2 \<longrightarrow>
        me_name (entryOfRow r1) = me_name (entryOfRow r2))"

definition consistentOrders :: "row list \<Rightarrow> bool" where
  "consistentOrders rows =
     (\<forall>r1\<in>set rows. \<forall>r2\<in>set rows.
        bothExercises r1 r2 \<and> rowExerciseId r1 = rowExerciseId r2 \<longrightarrow>
        me_order (entryOfRow r1) = me_order (entryOfRow r2))"

text \<open>Within a workout, different exercise ids have different \<^verbatim>\<open>order\<close> values.\<close>

definition distinctOrders :: "row list \<Rightarrow> bool" where
  "distinctOrders rows =
     (\<forall>r1\<in>set rows. \<forall>r2\<in>set rows.
        bothExercises r1 r2 \<and> me_order (entryOfRow r1) = me_order (entryOfRow r2) \<longrightarrow>
        rowExerciseId r1 = rowExerciseId r2)"

text \<open>
  Within one exercise of a workout, two set records with the same \<^verbatim>\<open>setNumber\<close> are equal.
\<close>

definition consistentSets :: "row list \<Rightarrow> bool" where
  "consistentSets rows =
     (\<forall>r1\<in>set rows. \<forall>r2\<in>set rows.
        bothExercises r1 r2 \<and> rowExerciseId r1 = rowExerciseId r2 \<longrightarrow>
        (\<forall>s1\<in>set (rowSets r1). \<forall>s2\<in>set (rowSets r2).
           ws_setNumber s1 = ws_setNumber s2 \<longrightarrow> s1 = s2))"

section \<open>A result read without the order of its lists\<close>

text \<open>
  A returned exercise with its sets as a multiset, and a returned workout in three
  readings: \<open>unorderedContent\<close> takes the exercises as a multiset and the sets of each as
  a multiset; \<open>exercisesInOrder\<close> keeps the order of the exercises; \<open>setsInOrder\<close> keeps
  the order of the sets within each exercise.
\<close>

definition exerciseContent :: "WorkoutExercise \<Rightarrow> string \<times> WorkoutSet multiset" where
  "exerciseContent x = (wx_name x, mset (wx_sets x))"

definition outFields :: "WorkoutWithExercises \<Rightarrow> int \<times> string option \<times> int \<times> int option" where
  "outFields wo = (wo_id wo, wo_name wo, wo_startedAt wo, wo_completedAt wo)"

definition unorderedContent ::
  "WorkoutWithExercises \<Rightarrow>
     (int \<times> string option \<times> int \<times> int option) \<times> (string \<times> WorkoutSet multiset) multiset" where
  "unorderedContent wo = (outFields wo, mset (map exerciseContent (wo_exercises wo)))"

definition exercisesInOrder ::
  "WorkoutWithExercises \<Rightarrow>
     (int \<times> string option \<times> int \<times> int option) \<times> (string \<times> WorkoutSet multiset) list" where
  "exercisesInOrder wo = (outFields wo, map exerciseContent (wo_exercises wo))"

definition setsInOrder ::
  "WorkoutWithExercises \<Rightarrow>
     (int \<times> string option \<times> int \<times> int option) \<times> WorkoutExercise multiset" where
  "setsInOrder wo = (outFields wo, mset (wo_exercises wo))"

section \<open>Rows whose result depends on their order\<close>

text \<open>
  Rows of workout 1: the exercise Squat under a given join record and \<^verbatim>\<open>order\<close>, the
  exercise Lunge with a given \<^verbatim>\<open>order\<close>, a Squat set with \<^verbatim>\<open>setNumber\<close> 1 and a given
  weight, a row that gives the workout another name, and a row that gives exercise 100
  another name. The three projections read the names of the workouts, the names of the
  exercises and the weights of the sets off a result.
\<close>

definition squatAt :: "int \<Rightarrow> int \<Rightarrow> row" where
  "squatAt weId ord =
     \<lparr>row_workout = Some legDay,
      row_workoutExercise =
        Some \<lparr>we_id = weId, we_workoutId = 1, we_exerciseId = 100, we_order = ord\<rparr>,
      row_exercise = Some \<lparr>e_id = 100, e_name = ''Squat''\<rparr>,
      row_set = None\<rparr>"

definition lungeAt :: "int \<Rightarrow> row" where
  "lungeAt ord =
     \<lparr>row_workout = Some legDay,
      row_workoutExercise =
        Some \<lparr>we_id = 11, we_workoutId = 1, we_exerciseId = 101, we_order = ord\<rparr>,
      row_exercise = Some \<lparr>e_id = 101, e_name = ''Lunge''\<rparr>,
      row_set = None\<rparr>"

definition squatWeight :: "int \<Rightarrow> string \<Rightarrow> row" where
  "squatWeight sid wt =
     \<lparr>row_workout = Some legDay,
      row_workoutExercise =
        Some \<lparr>we_id = 10, we_workoutId = 1, we_exerciseId = 100, we_order = 0\<rparr>,
      row_exercise = Some \<lparr>e_id = 100, e_name = ''Squat''\<rparr>,
      row_set = Some \<lparr>s_id = sid, s_workoutExerciseId = 10, s_setNumber = 1,
        s_weight = Some wt, s_reps = None, s_durationSeconds = None\<rparr>\<rparr>"

definition renamedWorkout :: "string \<Rightarrow> row" where
  "renamedWorkout n =
     \<lparr>row_workout = Some (legDay\<lparr>w_name := Some n\<rparr>), row_workoutExercise = None,
      row_exercise = None, row_set = None\<rparr>"

definition renamedExercise :: "string \<Rightarrow> row" where
  "renamedExercise n =
     \<lparr>row_workout = Some legDay,
      row_workoutExercise =
        Some \<lparr>we_id = 10, we_workoutId = 1, we_exerciseId = 100, we_order = 0\<rparr>,
      row_exercise = Some \<lparr>e_id = 100, e_name = n\<rparr>,
      row_set = None\<rparr>"

definition workoutNames :: "error + WorkoutWithExercises list \<Rightarrow> string option list" where
  "workoutNames res = (case res of Inl e \<Rightarrow> [] | Inr out \<Rightarrow> map wo_name out)"

definition exerciseNames :: "error + WorkoutWithExercises list \<Rightarrow> string list list" where
  "exerciseNames res =
     (case res of Inl e \<Rightarrow> [] | Inr out \<Rightarrow> map (\<lambda>wo. map wx_name (wo_exercises wo)) out)"

definition setWeights :: "error + WorkoutWithExercises list \<Rightarrow> string option list list list" where
  "setWeights res =
     (case res of Inl e \<Rightarrow> []
      | Inr out \<Rightarrow> map (\<lambda>wo. map (\<lambda>x. map ws_weight (wx_sets x)) (wo_exercises wo)) out)"

text \<open>The result for two exercises of workout 1 without sets, by their names.\<close>

definition tieResult :: "string list \<Rightarrow> WorkoutWithExercises" where
  "tieResult names =
     \<lparr>wo_id = 1, wo_name = Some ''Leg Day'', wo_startedAt = 1756717200000, wo_completedAt = None,
      wo_exercises = map (\<lambda>n. \<lparr>wx_name = n, wx_sets = []\<rparr>) names\<rparr>"

section \<open>Properties of the ordinal date formatter\<close>

lemma localFields_localInstant:
  assumes "0 \<le> ms" and "ms < msPerDay"
  shows "localFields tz (n * msPerDay + ms - tz) = civilFromDays n"
proof -
  have "(n * msPerDay + ms) div msPerDay = n"
    using assms by (simp add: msPerDay_def)
  then show ?thesis by (simp add: localFields_def)
qed

lemma format_localInstant:
  assumes "0 \<le> ms" and "ms < msPerDay"
  shows "format tz (localInstant tz y m d ms) p = format 0 (localInstant 0 y m d 0) p"
  using localFields_localInstant [OF assms, of tz "daysFromCivil y m d"]
    localFields_localInstant [of 0 0 "daysFromCivil y m d"]
  by (simp add: localInstant_def msPerDay_def)

lemma formatDateWithOrdinal_localInstant:
  assumes "0 \<le> ms" and "ms < msPerDay"
  shows "formatDateWithOrdinal tz (localInstant tz y m d ms) =
     formatDateWithOrdinal 0 (localInstant 0 y m d 0)"
  by (simp only: formatDateWithOrdinal_def format_localInstant [OF assms])

lemma format_2025_09_01:
  "formatDateWithOrdinal 0 (localInstant 0 2025 9 1 0) = Inr ''1st Sep 2025''"
  by code_simp

lemma format_2025_08_02:
  "formatDateWithOrdinal 0 (localInstant 0 2025 8 2 0) = Inr ''2nd Aug 2025''"
  by code_simp

lemma format_2026_01_03:
  "formatDateWithOrdinal 0 (localInstant 0 2026 1 3 0) = Inr ''3rd Jan 2026''"
  by code_simp

lemma format_2024_06_04:
  "formatDateWithOrdinal 0 (localInstant 0 2024 6 4 0) = Inr ''4th Jun 2024''"
  by code_simp

lemma format_2025_12_21:
  "formatDateWithOrdinal 0 (localInstant 0 2025 12 21 0) = Inr ''21st Dec 2025''"
  by code_simp

lemma format_2024_11_22:
  "formatDateWithOrdinal 0 (localInstant 0 2024 11 22 0) = Inr ''22nd Nov 2024''"
  by code_simp

lemma format_2026_03_23:
  "formatDateWithOrdinal 0 (localInstant 0 2026 3 23 0) = Inr ''23rd Mar 2026''"
  by code_simp

text \<open>
  Claim C8. The ordinal date formatter returns exactly these strings for these dates,
  for every instant of the local day and every time zone offset: 2025-09-01 gives
  "1st Sep 2025", 2025-08-02 gives "2nd Aug 2025", 2026-01-03 gives "3rd Jan 2026",
  2024-06-04 gives "4th Jun 2024", 2025-12-21 gives "21st Dec 2025", 2024-11-22 gives
  "22nd Nov 2024", 2026-03-23 gives "23rd Mar 2026".
\<close>

theorem ordinal_formatting_table:
  assumes "0 \<le> ms" and "ms < msPerDay"
  shows
  "formatDateWithOrdinal tz (localInstant tz 2025 9 1 ms) = Inr ''1st Sep 2025'' \<and>
   formatDateWithOrdinal tz (localInstant tz 2025 8 2 ms) = Inr ''2nd Aug 2025'' \<and>
   formatDateWithOrdinal tz (localInstant tz 2026 1 3 ms) = Inr ''3rd Jan 2026'' \<and>
   formatDateWithOrdinal tz (localInstant tz 2024 6 4 ms) = Inr ''4th Jun 2024'' \<and>
   formatDateWithOrdinal tz (localInstant tz 2025 12 21 ms) = Inr ''21st Dec 2025'' \<and>
   formatDateWithOrdinal tz (localInstant tz 2024 11 22 ms) = Inr ''22nd Nov 2024'' \<and>
   formatDateWithOrdinal tz (localInstant tz 2026 3 23 ms) = Inr ''23rd Mar 2026''"
  by (simp only: formatDateWithOrdinal_localInstant [OF assms]
      format_2025_09_01 format_2025_08_02 format_2026_01_03 format_2024_06_04
      format_2025_12_21 format_2024_11_22 format_2026_03_23 simp_thms)

text \<open>
  The theorem one hour east of UTC, one hour into the day: the Date that
  \<^verbatim>\<open>new Date('2025-09-01')\<close> builds, midnight in UTC.
\<close>

theorem ordinal_formatting_table_witness:
  "(0::int) \<le> 3600000 \<and> (3600000::int) < msPerDay
   \<and> localInstant 3600000 2025 9 1 3600000 = Date 1756684800000
   \<and> formatDateWithOrdinal 3600000 (Date 1756684800000) = Inr ''1st Sep 2025''"
proof -
  have a: "(0::int) \<le> 3600000" and b: "(3600000::int) < msPerDay"
    by (simp_all add: msPerDay_def)
  have c: "localInstant 3600000 2025 9 1 3600000 = Date 1756684800000"
    by (simp add: localInstant_def daysFromCivil_def msPerDay_def)
  from ordinal_formatting_table [OF a b, of 3600000] a b c show ?thesis by simp
qed

text \<open>
  West of UTC the same Date falls on the evening before: whether
  \<^verbatim>\<open>new Date('2025-09-01')\<close> is shown as the first of September depends on the zone.
\<close>

lemma format_utc_midnight_west:
  "formatDateWithOrdinal (- 18000000) (Date 1756684800000) = Inr ''31st Aug 2025''"
  by code_simp

lemma suffix_table:
  "list_all (\<lambda>d. suffix (showInt d) = ordinalSuffixMod100 d) [1..31]"
  by code_simp

lemma suffix_21_31:
  "map (\<lambda>d. suffix (showInt d)) [21..31] =
     [''st'', ''nd'', ''rd'', ''th'', ''th'', ''th'', ''th'', ''th'', ''th'', ''th'', ''st'']"
  by code_simp

text \<open>
  Claim C9. For every day of the month \<open>d\<close> in 1..31, the suffix the code computes from
  the day string of \<open>d\<close> (the rule \<open>d > 3\<close> and \<open>d < 21\<close> gives "th", otherwise by
  \<open>d % 10\<close>) equals the suffix of the modulo-100 rule; for 21..31 the suffixes are
  st, nd, rd, th, th, th, th, th, th, th, st.
\<close>

theorem suffix_rules_agree:
  assumes "1 \<le> d" and "d \<le> 31"
  shows "suffix (showInt d) = ordinalSuffixMod100 d \<and>
         map (\<lambda>d. suffix (showInt d)) [21..31] =
           [''st'', ''nd'', ''rd'', ''th'', ''th'', ''th'', ''th'', ''th'', ''th'', ''th'', ''st'']"
proof -
  have "d \<in> set [1..31]"
    using assms by simp
  then have "suffix (showInt d) = ordinalSuffixMod100 d"
    using suffix_table unfolding list_all_iff by blast
  then show ?thesis
    using suffix_21_31 by blast
qed

text \<open>The theorem at \<open>d = 22\<close>.\<close>

theorem suffix_rules_agree_witness:
  "(1::int) \<le> 22 \<and> (22::int) \<le> 31 \<and> suffix (showInt 22) = ordinalSuffixMod100 22 \<and>
   suffix (showInt 22) = ''nd''"
  using suffix_rules_agree [of 22] by (simp add: ordinalSuffixMod100_def)

section \<open>Properties of the transformation\<close>

lemma update_present:
  "map_of m k = Some v \<Longrightarrow> AList.update k (g v) m = AList.map_entry k g m"
  by (induction m) auto

lemma map_of_ensureWorkout:
  "map_of (ensureWorkout m rw) k =
     (case map_of m k of Some w \<Rightarrow> Some w
      | None \<Rightarrow> if k = w_id rw then Some (newWorkout rw) else None)"
  by (simp add: ensureWorkout_def Map_has_def Map_set_def update_conv' split: option.splits)

lemma map_of_ensureExercise:
  "map_of (ensureExercise exs re rwe) e =
     (case map_of exs e of Some x \<Rightarrow> Some x
      | None \<Rightarrow> if e = e_id re
          then Some \<lparr>me_name = e_name re, me_order = we_order rwe, me_sets = []\<rparr> else None)"
  by (simp add: ensureExercise_def Map_has_def Map_set_def update_conv' split: option.splits)

lemma pushSet_map_entry:
  "pushSet exs e rs = AList.map_entry e (\<lambda>x. x\<lparr>me_sets := me_sets x @ [newSet rs]\<rparr>) exs"
  by (simp add: pushSet_def Map_get_def Map_set_def update_present split: option.splits)
     (induction exs; auto)

lemma loopBody_skip: "row_workout r = None \<Longrightarrow> loopBody m r = Inr m"
  by (simp add: loopBody_def)

lemma loopBody_bare:
  assumes "row_workout r = Some rw" and "row_exercise r = None \<or> row_workoutExercise r = None"
  shows "loopBody m r = Inr (ensureWorkout m rw)"
  using assms
  by (auto simp: loopBody_def bnd_def deref_def Let_def Map_get_def split: option.splits)

lemma loopBody_full:
  assumes "row_workout r = Some rw" and "row_exercise r = Some re"
    and "row_workoutExercise r = Some rwe"
  shows "loopBody m r =
     Inr (AList.map_entry (w_id rw)
       (\<lambda>w. w\<lparr>wm_exercises :=
          (case row_set r of None \<Rightarrow> ensureExercise (wm_exercises w) re rwe
           | Some rs \<Rightarrow> pushSet (ensureExercise (wm_exercises w) re rwe) (e_id re) rs)\<rparr>)
       (ensureWorkout m rw))"
proof -
  obtain w where w: "map_of (ensureWorkout m rw) (w_id rw) = Some w"
    by (cases "map_of m (w_id rw)") (simp_all add: map_of_ensureWorkout)
  show ?thesis
  proof (cases "row_set r")
    case None
    then show ?thesis
      using assms w
        update_present [OF w, of "\<lambda>w. w\<lparr>wm_exercises := ensureExercise (wm_exercises w) re rwe\<rparr>"]
      by (simp add: loopBody_def bnd_def deref_def Let_def Map_get_def Map_set_def)
  next
    case (Some rs)
    then show ?thesis
      using assms w
        update_present [OF w, of "\<lambda>w. w\<lparr>wm_exercises :=
          pushSet (ensureExercise (wm_exercises w) re rwe) (e_id re) rs\<rparr>"]
      by (simp add: loopBody_def bnd_def deref_def Let_def Map_get_def Map_set_def)
  qed
qed

lemma loopBody_total: "\<exists>m'. loopBody m r = Inr m'"
proof (cases "row_workout r")
  case None
  then show ?thesis by (simp add: loopBody_skip)
next
  case (Some rw)
  then show ?thesis
    by (cases "row_exercise r"; cases "row_workoutExercise r")
       (simp_all add: loopBody_bare loopBody_full)
qed

lemma lookupExercise_ensureWorkout:
  "lookupExercise (ensureWorkout m rw) k e = lookupExercise m k e"
  by (simp add: lookupExercise_def map_of_ensureWorkout newWorkout_def split: option.splits)

lemma lookupExercise_loopBody:
  assumes "loopBody m r = Inr m'"
  shows "lookupExercise m' k e =
     (case lookupExercise m k e of
        Some x \<Rightarrow> Some (x\<lparr>me_sets := me_sets x @ setsOfRow k e r\<rparr>)
      | None \<Rightarrow> if hasExercise k e r
                then Some ((entryOfRow r)\<lparr>me_sets := setsOfRow k e r\<rparr>) else None)"
proof (cases "row_workout r")
  case None
  with assms have "m' = m" by (simp add: loopBody_skip)
  with None show ?thesis
    by (simp add: hasExercise_def inWorkout_def setsOfRow_def split: option.splits)
next
  case (Some rw)
  note rw = this
  show ?thesis
  proof (cases "row_exercise r = None \<or> row_workoutExercise r = None")
    case True
    with assms rw have "m' = ensureWorkout m rw" by (simp add: loopBody_bare)
    with True show ?thesis
      by (auto simp: lookupExercise_ensureWorkout hasExercise_def setsOfRow_def
          split: option.splits)
  next
    case False
    then obtain re rwe where re: "row_exercise r = Some re"
      and rwe: "row_workoutExercise r = Some rwe" by auto
    have m': "m' = AList.map_entry (w_id rw)
       (\<lambda>w. w\<lparr>wm_exercises :=
          (case row_set r of None \<Rightarrow> ensureExercise (wm_exercises w) re rwe
           | Some rs \<Rightarrow> pushSet (ensureExercise (wm_exercises w) re rwe) (e_id re) rs)\<rparr>)
       (ensureWorkout m rw)"
      using assms loopBody_full [OF rw re rwe, of m] by simp
    show ?thesis
    proof (cases "k = w_id rw")
      case False
      then show ?thesis
        using rw re rwe
        by (simp add: m' lookupExercise_def map_of_map_entry map_of_ensureWorkout
            hasExercise_def inWorkout_def setsOfRow_def split: option.splits)
    next
      case True
      show ?thesis
      proof (cases "row_set r")
        case None
        then show ?thesis
          using rw re rwe True
          by (auto simp: m' lookupExercise_def map_of_map_entry map_of_ensureWorkout
              map_of_ensureExercise newWorkout_def entryOfRow_def
              hasExercise_def inWorkout_def setsOfRow_def split: option.splits)
      next
        case (Some rs)
        then show ?thesis
          using rw re rwe True
          by (auto simp: m' lookupExercise_def map_of_map_entry map_of_ensureWorkout
              map_of_ensureExercise pushSet_map_entry newWorkout_def entryOfRow_def
              hasExercise_def inWorkout_def setsOfRow_def split: option.splits)
      qed
    qed
  qed
qed

lemma forRows_Cons: "loopBody m r = Inr m1 \<Longrightarrow> forRows m (r # rows) = forRows m1 rows"
  by (simp add: bnd_def)

lemma forRows_total: "\<exists>m'. forRows m rows = Inr m'"
proof (induction rows arbitrary: m)
  case Nil
  show ?case by simp
next
  case (Cons r rows)
  obtain m1 where "loopBody m r = Inr m1" using loopBody_total by blast
  then show ?case using Cons.IH [of m1] by (simp add: bnd_def)
qed

lemma setsOfRow_not: "\<not> hasExercise k e r \<Longrightarrow> setsOfRow k e r = []"
  by (simp add: setsOfRow_def)

lemma lookupExercise_forRows:
  assumes "forRows m rows = Inr m'"
  shows "lookupExercise m' k e =
     (case lookupExercise m k e of
        Some x \<Rightarrow> Some (x\<lparr>me_sets := me_sets x @ rawSets k e rows\<rparr>)
      | None \<Rightarrow> (case find (hasExercise k e) rows of
                   None \<Rightarrow> None
                 | Some r \<Rightarrow> Some ((entryOfRow r)\<lparr>me_sets := rawSets k e rows\<rparr>)))"
  using assms
proof (induction rows arbitrary: m)
  case Nil
  then show ?case by (simp add: rawSets_def split: option.splits)
next
  case (Cons r rows)
  obtain m1 where m1: "loopBody m r = Inr m1" using loopBody_total by blast
  with Cons.prems have "forRows m1 rows = Inr m'" by (simp add: bnd_def)
  note ih = Cons.IH [OF this]
  note st = lookupExercise_loopBody [OF m1, of k e]
  show ?case
  proof (cases "lookupExercise m k e")
    case (Some x)
    with st ih show ?thesis by (simp add: rawSets_def)
  next
    case None
    show ?thesis
    proof (cases "hasExercise k e r")
      case True
      with None st ih show ?thesis by (simp add: rawSets_def)
    next
      case False
      with None st ih show ?thesis
        by (simp add: rawSets_def setsOfRow_not split: option.splits)
    qed
  qed
qed

lemma map_of_loopBody_fields:
  assumes "loopBody m r = Inr m'"
  shows "map_option workoutFields (map_of m' k) =
     (case map_of m k of
        Some w \<Rightarrow> Some (workoutFields w)
      | None \<Rightarrow> if inWorkout k r
                then map_option (workoutFields \<circ> newWorkout) (row_workout r) else None)"
proof (cases "row_workout r")
  case None
  with assms have "m' = m" by (simp add: loopBody_skip)
  with None show ?thesis by (simp add: inWorkout_def split: option.splits)
next
  case (Some rw)
  note rw = this
  show ?thesis
  proof (cases "row_exercise r = None \<or> row_workoutExercise r = None")
    case True
    with assms rw have "m' = ensureWorkout m rw" by (simp add: loopBody_bare)
    with rw show ?thesis
      by (auto simp: map_of_ensureWorkout inWorkout_def split: option.splits)
  next
    case False
    then obtain re rwe where re: "row_exercise r = Some re"
      and rwe: "row_workoutExercise r = Some rwe" by auto
    have m': "m' = AList.map_entry (w_id rw)
       (\<lambda>w. w\<lparr>wm_exercises :=
          (case row_set r of None \<Rightarrow> ensureExercise (wm_exercises w) re rwe
           | Some rs \<Rightarrow> pushSet (ensureExercise (wm_exercises w) re rwe) (e_id re) rs)\<rparr>)
       (ensureWorkout m rw)"
      using assms loopBody_full [OF rw re rwe, of m] by simp
    show ?thesis
      using rw
      by (auto simp: m' map_of_map_entry map_of_ensureWorkout inWorkout_def workoutFields_def
          split: option.splits)
  qed
qed

lemma map_of_forRows_fields:
  assumes "forRows m rows = Inr m'"
  shows "map_option workoutFields (map_of m' k) =
     (case map_of m k of
        Some w \<Rightarrow> Some (workoutFields w)
      | None \<Rightarrow> (case find (inWorkout k) rows of
                   None \<Rightarrow> None
                 | Some r \<Rightarrow> map_option (workoutFields \<circ> newWorkout) (row_workout r)))"
  using assms
proof (induction rows arbitrary: m)
  case Nil
  then show ?case by (simp split: option.splits)
next
  case (Cons r rows)
  obtain m1 where m1: "loopBody m r = Inr m1" using loopBody_total by blast
  with Cons.prems have "forRows m1 rows = Inr m'" by (simp add: bnd_def)
  note ih = Cons.IH [OF this]
  note st = map_of_loopBody_fields [OF m1, of k]
  show ?case
  proof (cases "map_of m k")
    case (Some w)
    with st obtain w1 where "map_of m1 k = Some w1" "workoutFields w1 = workoutFields w"
      by auto
    with ih Some show ?thesis by simp
  next
    case None
    show ?thesis
    proof (cases "inWorkout k r")
      case True
      then obtain rw where rw: "row_workout r = Some rw" by (auto simp: inWorkout_def)
      with None True st obtain w1 where "map_of m1 k = Some w1"
        "workoutFields w1 = workoutFields (newWorkout rw)" by auto
      with ih None True rw show ?thesis by simp
    next
      case False
      with None st have "map_of m1 k = None" by simp
      with ih None False show ?thesis by simp
    qed
  qed
qed

lemma keys_loopBody:
  assumes "loopBody m r = Inr m'"
  shows "map fst m' =
     (case row_workout r of None \<Rightarrow> map fst m
      | Some rw \<Rightarrow> if w_id rw \<in> set (map fst m) then map fst m else map fst m @ [w_id rw])"
proof -
  have ens: "map fst (ensureWorkout m rw) =
      (if w_id rw \<in> set (map fst m) then map fst m else map fst m @ [w_id rw])" for rw
    by (auto simp: ensureWorkout_def Map_has_def Map_set_def update_keys map_of_eq_None_iff)
  have me: "map fst (AList.map_entry k f xs) = map fst xs" for k f and xs :: "(int \<times> 'v) list"
    by (induction xs) auto
  show ?thesis
  proof (cases "row_workout r")
    case None
    with assms show ?thesis by (simp add: loopBody_skip)
  next
    case (Some rw)
    show ?thesis
    proof (cases "row_exercise r = None \<or> row_workoutExercise r = None")
      case True
      with assms Some have "m' = ensureWorkout m rw" by (simp add: loopBody_bare)
      with Some ens show ?thesis by simp
    next
      case False
      then obtain re rwe where re: "row_exercise r = Some re"
        and rwe: "row_workoutExercise r = Some rwe" by auto
      have "map fst m' = map fst (ensureWorkout m rw)"
        using assms loopBody_full [OF Some re rwe, of m] by (auto simp: me)
      with Some ens show ?thesis by simp
    qed
  qed
qed

lemma keys_forRows:
  assumes "forRows m rows = Inr m'"
  shows "set (map fst m') = set (map fst m) \<union> workoutIds rows
     \<and> (distinct (map fst m) \<longrightarrow> distinct (map fst m'))"
  using assms
proof (induction rows arbitrary: m)
  case Nil
  then show ?case by (simp add: workoutIds_def)
next
  case (Cons r rows)
  obtain m1 where m1: "loopBody m r = Inr m1" using loopBody_total by blast
  with Cons.prems have "forRows m1 rows = Inr m'" by (simp add: bnd_def)
  note ih = Cons.IH [OF this]
  note st = keys_loopBody [OF m1]
  have w: "workoutIds (r # rows) = {k. inWorkout k r} \<union> workoutIds rows"
    by (auto simp: workoutIds_def)
  show ?case
  proof (cases "row_workout r")
    case None
    with st ih w show ?thesis by (simp add: inWorkout_def)
  next
    case (Some rw)
    then have "{k. inWorkout k r} = {w_id rw}" by (auto simp: inWorkout_def)
    with st ih w Some show ?thesis by (auto split: if_splits)
  qed
qed

lemma distinct_ensureExercise:
  "distinct (map fst exs) \<Longrightarrow> distinct (map fst (ensureExercise exs re rwe))"
  by (simp add: ensureExercise_def Map_set_def distinct_update)

lemma exercisesDistinct_loopBody:
  assumes "loopBody m r = Inr m'" and "exercisesDistinct m"
  shows "exercisesDistinct m'"
proof (cases "row_workout r")
  case None
  with assms show ?thesis by (simp add: loopBody_skip)
next
  case (Some rw)
  note rw = this
  have ens: "exercisesDistinct (ensureWorkout m rw)"
    using assms(2)
    by (auto simp: exercisesDistinct_def map_of_ensureWorkout newWorkout_def
        split: option.splits if_splits)
  show ?thesis
  proof (cases "row_exercise r = None \<or> row_workoutExercise r = None")
    case True
    with assms rw have "m' = ensureWorkout m rw" by (simp add: loopBody_bare)
    with ens show ?thesis by simp
  next
    case False
    then obtain re rwe where re: "row_exercise r = Some re"
      and rwe: "row_workoutExercise r = Some rwe" by auto
    have m': "m' = AList.map_entry (w_id rw)
       (\<lambda>w. w\<lparr>wm_exercises :=
          (case row_set r of None \<Rightarrow> ensureExercise (wm_exercises w) re rwe
           | Some rs \<Rightarrow> pushSet (ensureExercise (wm_exercises w) re rwe) (e_id re) rs)\<rparr>)
       (ensureWorkout m rw)"
      using assms loopBody_full [OF rw re rwe, of m] by simp
    show ?thesis
      unfolding exercisesDistinct_def
    proof (intro allI impI)
      fix k w
      assume kw: "map_of m' k = Some w"
      show "distinct (map fst (wm_exercises w))"
      proof (cases "k = w_id rw")
        case False
        with kw have "map_of (ensureWorkout m rw) k = Some w"
          by (simp add: m' map_of_map_entry)
        with ens show ?thesis by (simp add: exercisesDistinct_def)
      next
        case True
        with kw obtain w0 where w0: "map_of (ensureWorkout m rw) (w_id rw) = Some w0"
          and w: "w = w0\<lparr>wm_exercises :=
          (case row_set r of None \<Rightarrow> ensureExercise (wm_exercises w0) re rwe
           | Some rs \<Rightarrow> pushSet (ensureExercise (wm_exercises w0) re rwe) (e_id re) rs)\<rparr>"
          by (auto simp: m' map_of_map_entry split: option.splits)
        from ens w0 have "distinct (map fst (wm_exercises w0))"
          by (simp add: exercisesDistinct_def)
        then show ?thesis
          by (cases "row_set r")
             (simp_all add: w distinct_ensureExercise pushSet_map_entry distinct_map_entry)
      qed
    qed
  qed
qed

lemma exercisesDistinct_forRows:
  assumes "forRows m rows = Inr m'" and "exercisesDistinct m"
  shows "exercisesDistinct m'"
  using assms
proof (induction rows arbitrary: m)
  case Nil
  then show ?case by simp
next
  case (Cons r rows)
  obtain m1 where m1: "loopBody m r = Inr m1" using loopBody_total by blast
  with Cons.prems have "forRows m1 rows = Inr m'" by (simp add: bnd_def)
  with Cons.IH exercisesDistinct_loopBody [OF m1 Cons.prems(2)] show ?case by blast
qed

lemma insort_key_map:
  "insort_key f (g x) (map g ys) = map g (insort_key (\<lambda>y. f (g y)) x ys)"
  by (induction ys) auto

lemma sort_key_map: "sort_key f (map g xs) = map g (sort_key (\<lambda>y. f (g y)) xs)"
  by (induction xs) (simp_all add: insort_key_map)

lemma final_keys:
  assumes "forRows [] rows = Inr m'"
  shows "distinct (map fst m')" and "set (map fst m') = workoutIds rows"
    and "exercisesDistinct m'"
  using keys_forRows [OF assms] exercisesDistinct_forRows [OF assms]
  by (simp_all add: exercisesDistinct_def)

lemma final_workout:
  assumes "forRows [] rows = Inr m'" and "map_of m' k = Some w"
  shows "\<exists>r rw. find (inWorkout k) rows = Some r \<and> row_workout r = Some rw \<and> w_id rw = k
           \<and> workoutFields w = workoutFields (newWorkout rw)"
proof -
  have "Some (workoutFields w) =
      (case find (inWorkout k) rows of None \<Rightarrow> None
       | Some r \<Rightarrow> map_option (workoutFields \<circ> newWorkout) (row_workout r))"
    using map_of_forRows_fields [OF assms(1), of k] assms(2) by simp
  then obtain r where r: "find (inWorkout k) rows = Some r"
    and f: "map_option (workoutFields \<circ> newWorkout) (row_workout r) = Some (workoutFields w)"
    by (cases "find (inWorkout k) rows") simp_all
  from r have "inWorkout k r" by (auto simp: find_Some_iff)
  then obtain rw where rw: "row_workout r = Some rw" "w_id rw = k"
    by (auto simp: inWorkout_def)
  with f have "workoutFields w = workoutFields (newWorkout rw)" by simp
  with r rw show ?thesis by blast
qed

lemma final_exercise:
  assumes "forRows [] rows = Inr m'" and "map_of m' k = Some w"
  shows "map_of (wm_exercises w) e =
     (case find (hasExercise k e) rows of None \<Rightarrow> None
      | Some r \<Rightarrow> Some ((entryOfRow r)\<lparr>me_sets := rawSets k e rows\<rparr>))"
  using lookupExercise_forRows [OF assms(1), of k e] assms(2)
  by (simp add: lookupExercise_def)

lemma final_exercise_keys:
  assumes "forRows [] rows = Inr m'" and "map_of m' k = Some w"
  shows "set (map fst (wm_exercises w)) = exerciseIds rows k"
proof -
  have "e \<in> set (map fst (wm_exercises w)) \<longleftrightarrow> e \<in> exerciseIds rows k" for e
  proof -
    have "e \<in> set (map fst (wm_exercises w)) \<longleftrightarrow> map_of (wm_exercises w) e \<noteq> None"
      by (simp add: map_of_eq_None_iff)
    also have "\<dots> \<longleftrightarrow> find (hasExercise k e) rows \<noteq> None"
      by (simp add: final_exercise [OF assms] split: option.splits)
    also have "\<dots> \<longleftrightarrow> e \<in> exerciseIds rows k"
      by (auto simp: find_None_iff exerciseIds_def)
    finally show ?thesis .
  qed
  then show ?thesis by blast
qed

lemma final_entry:
  assumes "forRows [] rows = Inr m'" and "map_of m' k = Some w"
    and "(e, x) \<in> set (wm_exercises w)"
  shows "me_order x = sourceOrder rows k e" and "toWorkoutExercise x = exerciseOut rows k e"
proof -
  have "distinct (map fst (wm_exercises w))"
    using final_keys(3) [OF assms(1)] assms(2) by (simp add: exercisesDistinct_def)
  with assms(3) have "map_of (wm_exercises w) e = Some x" by simp
  with final_exercise [OF assms(1,2), of e]
  obtain r where r: "find (hasExercise k e) rows = Some r"
    and x: "x = (entryOfRow r)\<lparr>me_sets := rawSets k e rows\<rparr>"
    by (auto split: option.splits)
  show "me_order x = sourceOrder rows k e"
    by (simp add: x r sourceOrder_def)
  show "toWorkoutExercise x = exerciseOut rows k e"
    by (simp add: x r toWorkoutExercise_def exerciseOut_def sourceName_def)
qed

lemma exercises_labelled:
  assumes "forRows [] rows = Inr m'" and "map_of m' k = Some w"
  shows "\<exists>ids. distinct ids \<and> set ids = exerciseIds rows k
      \<and> sorted (map (sourceOrder rows k) ids)
      \<and> wo_exercises (toWorkoutWithExercises w) = map (exerciseOut rows k) ids"
proof -
  define E where "E = wm_exercises w"
  define S where "S = sort_key (\<lambda>p. me_order (snd p)) E"
  have dE: "distinct (map fst E)"
    using final_keys(3) [OF assms(1)] assms(2) by (simp add: exercisesDistinct_def E_def)
  have setS: "set S = set E" by (simp add: S_def)
  have msetS: "mset (map fst S) = mset (map fst E)" by (simp add: S_def)
  have ent: "me_order (snd p) = sourceOrder rows k (fst p)
      \<and> toWorkoutExercise (snd p) = exerciseOut rows k (fst p)" if "p \<in> set S" for p
    using final_entry [OF assms, of "fst p" "snd p"] that setS by (simp add: E_def)
  have 1: "distinct (map fst S)"
    using dE msetS by (metis mset_eq_imp_distinct_iff)
  have 2: "set (map fst S) = exerciseIds rows k"
    using final_exercise_keys [OF assms] setS by (simp add: E_def)
  have "map (sourceOrder rows k) (map fst S) = map (\<lambda>p. me_order (snd p)) S"
    using ent by simp
  moreover have "sorted (map (\<lambda>p. me_order (snd p)) S)"
    unfolding S_def by (rule sorted_sort_key)
  ultimately have 3: "sorted (map (sourceOrder rows k) (map fst S))" by (simp only:)
  have "wo_exercises (toWorkoutWithExercises w) =
      map toWorkoutExercise (sort_key me_order (map snd E))"
    by (simp add: toWorkoutWithExercises_def Map_values_def E_def)
  also have "\<dots> = map toWorkoutExercise (map snd S)"
    by (simp add: sort_key_map S_def)
  also have "\<dots> = map (exerciseOut rows k) (map fst S)"
    using ent by simp
  finally have 4: "wo_exercises (toWorkoutWithExercises w) = map (exerciseOut rows k) (map fst S)" .
  from 1 2 3 4 show ?thesis by blast
qed

lemmas sample_defs =
  sampleRows_def squatSet_def lungeRow_def restRow_def nullRow_def legDay_def restDay_def
  sampleLegDay_def sampleRestDay_def

lemmas transform_defs =
  transform_def loopBody_def bnd_def deref_def ensureWorkout_def ensureExercise_def pushSet_def
  Map_has_def Map_get_def Map_set_def Map_values_def newWorkout_def newSet_def
  toWorkoutWithExercises_def toWorkoutExercise_def

lemma transform_sampleRows: "transform sampleRows = Inr [sampleLegDay, sampleRestDay]"
  by (simp add: sample_defs transform_defs)

lemma workoutIds_sampleRows: "workoutIds sampleRows = {1, 2}"
  by (auto simp: workoutIds_def inWorkout_def sample_defs)

lemma exerciseIds_sampleRows_1: "exerciseIds sampleRows 1 = {100, 101}"
  by (auto simp: exerciseIds_def hasExercise_def inWorkout_def sample_defs)

lemma transform_eq:
  assumes "forRows [] rows = Inr m'"
  shows "transform rows = Inr (map toWorkoutWithExercises (map snd m'))"
  using assms by (simp add: transform_def bnd_def Map_values_def)

lemma final_id:
  assumes "forRows [] rows = Inr m'" and "(k, w) \<in> set m'"
  shows "map_of m' k = Some w" and "wo_id (toWorkoutWithExercises w) = k"
proof -
  show 1: "map_of m' k = Some w"
    using final_keys(1) [OF assms(1)] assms(2) by simp
  from final_workout [OF assms(1) 1] show "wo_id (toWorkoutWithExercises w) = k"
    by (auto simp: workoutFields_def newWorkout_def toWorkoutWithExercises_def)
qed

lemma output_ids:
  assumes "forRows [] rows = Inr m'"
  shows "map wo_id (map toWorkoutWithExercises (map snd m')) = map fst m'"
  using final_id(2) [OF assms] by (auto simp: map_idI)

lemma output_workout:
  assumes "forRows [] rows = Inr m'"
    and "wo \<in> set (map toWorkoutWithExercises (map snd m'))"
  obtains w where "map_of m' (wo_id wo) = Some w" and "wo = toWorkoutWithExercises w"
proof -
  from assms(2) obtain k w where kw: "(k, w) \<in> set m'" and wo: "wo = toWorkoutWithExercises w"
    by auto
  from final_id [OF assms(1) kw] wo that show ?thesis by simp
qed

text \<open>
  Claim C1. For every row sequence the transformation returns a list of workouts whose
  ids are exactly the distinct workout ids present in the rows, each once; and the
  exercise list of every returned workout has exactly one element per distinct exercise
  id the rows contribute to that workout: it is the image of a list of distinct exercise
  ids.
\<close>

theorem grouping_invariant:
  "\<exists>out. transform rows = Inr out
     \<and> set (map wo_id out) = workoutIds rows
     \<and> distinct (map wo_id out)
     \<and> (\<forall>wo\<in>set out. \<exists>ids. distinct ids \<and> set ids = exerciseIds rows (wo_id wo)
           \<and> wo_exercises wo = map (exerciseOut rows (wo_id wo)) ids)"
proof -
  obtain m' where m': "forRows [] rows = Inr m'" using forRows_total by blast
  define out where "out = map toWorkoutWithExercises (map snd m')"
  have 1: "transform rows = Inr out"
    using transform_eq [OF m'] by (simp add: out_def)
  have ids: "map wo_id out = map fst m'"
    using output_ids [OF m'] by (simp add: out_def)
  have 2: "set (map wo_id out) = workoutIds rows"
    using final_keys(2) [OF m'] by (simp only: ids)
  have 3: "distinct (map wo_id out)"
    using final_keys(1) [OF m'] by (simp only: ids)
  have 4: "\<exists>ids. distinct ids \<and> set ids = exerciseIds rows (wo_id wo)
           \<and> wo_exercises wo = map (exerciseOut rows (wo_id wo)) ids" if "wo \<in> set out" for wo
  proof -
    from that obtain w where w: "map_of m' (wo_id wo) = Some w" "wo = toWorkoutWithExercises w"
      using output_workout [OF m'] unfolding out_def by blast
    from exercises_labelled [OF m' w(1)] w(2) show ?thesis by blast
  qed
  from 1 2 3 4 show ?thesis by blast
qed

text \<open>The theorem on the sample rows, at the workout with id 1.\<close>

theorem grouping_invariant_witness:
  "transform sampleRows = Inr [sampleLegDay, sampleRestDay]
   \<and> set (map wo_id [sampleLegDay, sampleRestDay]) = {1, 2}
   \<and> distinct (map wo_id [sampleLegDay, sampleRestDay])
   \<and> (\<exists>ids. distinct ids \<and> set ids = {100, 101}
         \<and> wo_exercises sampleLegDay = map (exerciseOut sampleRows 1) ids)"
proof -
  have 1: "wo_id sampleLegDay = 1" by (simp add: sampleLegDay_def)
  from grouping_invariant [of sampleRows] show ?thesis
    unfolding transform_sampleRows workoutIds_sampleRows
    using exerciseIds_sampleRows_1 1 by auto
qed

lemma sorted_sets: "x \<in> set (map (exerciseOut rows k) ids) \<Longrightarrow> sorted (map ws_setNumber (wx_sets x))"
  by (auto simp: exerciseOut_def)

text \<open>
  Claim C2. For every row sequence and every returned workout, the exercises are the
  image of a list of the workout's exercise ids that is in non-decreasing order of the
  \<^verbatim>\<open>order\<close> value the rows give each exercise (the returned exercise has no \<^verbatim>\<open>order\<close>
  field), and the sets of every returned exercise are in non-decreasing order of
  \<^verbatim>\<open>setNumber\<close>.
\<close>

theorem sort_correctness:
  "\<exists>out. transform rows = Inr out
     \<and> (\<forall>wo\<in>set out.
           (\<exists>ids. distinct ids \<and> set ids = exerciseIds rows (wo_id wo)
              \<and> wo_exercises wo = map (exerciseOut rows (wo_id wo)) ids
              \<and> sorted (map (sourceOrder rows (wo_id wo)) ids))
         \<and> (\<forall>x\<in>set (wo_exercises wo). sorted (map ws_setNumber (wx_sets x))))"
proof -
  obtain m' where m': "forRows [] rows = Inr m'" using forRows_total by blast
  define out where "out = map toWorkoutWithExercises (map snd m')"
  have 1: "transform rows = Inr out"
    using transform_eq [OF m'] by (simp add: out_def)
  have 2: "(\<exists>ids. distinct ids \<and> set ids = exerciseIds rows (wo_id wo)
              \<and> wo_exercises wo = map (exerciseOut rows (wo_id wo)) ids
              \<and> sorted (map (sourceOrder rows (wo_id wo)) ids))
         \<and> (\<forall>x\<in>set (wo_exercises wo). sorted (map ws_setNumber (wx_sets x)))"
    if "wo \<in> set out" for wo
  proof -
    from that obtain w where w: "map_of m' (wo_id wo) = Some w" "wo = toWorkoutWithExercises w"
      using output_workout [OF m'] unfolding out_def by blast
    from exercises_labelled [OF m' w(1)] w(2)
    obtain ids where ids: "distinct ids" "set ids = exerciseIds rows (wo_id wo)"
      "sorted (map (sourceOrder rows (wo_id wo)) ids)"
      "wo_exercises wo = map (exerciseOut rows (wo_id wo)) ids" by blast
    from ids(4) have "\<forall>x\<in>set (wo_exercises wo). sorted (map ws_setNumber (wx_sets x))"
      using sorted_sets by simp
    with ids show ?thesis by blast
  qed
  from 1 2 show ?thesis by blast
qed

lemma sourceOrder_sampleRows:
  "sourceOrder sampleRows 1 101 = 0" "sourceOrder sampleRows 1 100 = 1"
  by (simp_all add: sourceOrder_def hasExercise_def inWorkout_def entryOfRow_def sample_defs)

text \<open>The theorem on the sample rows, at the workout with id 1 and its second exercise.\<close>

theorem sort_correctness_witness:
  "transform sampleRows = Inr [sampleLegDay, sampleRestDay]
   \<and> (\<exists>ids. distinct ids \<and> set ids = {100, 101}
         \<and> wo_exercises sampleLegDay = map (exerciseOut sampleRows 1) ids
         \<and> sorted (map (sourceOrder sampleRows 1) ids))
   \<and> map wx_name (wo_exercises sampleLegDay) = [''Lunge'', ''Squat'']
   \<and> map (\<lambda>x. map ws_setNumber (wx_sets x)) (wo_exercises sampleLegDay) = [[], [1, 2]]
   \<and> sorted (map ws_setNumber (wx_sets (wo_exercises sampleLegDay ! 1)))"
proof -
  have 1: "wo_id sampleLegDay = 1" by (simp add: sampleLegDay_def)
  have 2: "wo_exercises sampleLegDay ! 1 \<in> set (wo_exercises sampleLegDay)"
    by (simp add: sampleLegDay_def)
  have 3: "map wx_name (wo_exercises sampleLegDay) = [''Lunge'', ''Squat'']"
    "map (\<lambda>x. map ws_setNumber (wx_sets x)) (wo_exercises sampleLegDay) = [[], [1, 2]]"
    by (simp_all add: sampleLegDay_def)
  from sort_correctness [of sampleRows] have
    "(\<exists>ids. distinct ids \<and> set ids = exerciseIds sampleRows (wo_id sampleLegDay)
        \<and> wo_exercises sampleLegDay = map (exerciseOut sampleRows (wo_id sampleLegDay)) ids
        \<and> sorted (map (sourceOrder sampleRows (wo_id sampleLegDay)) ids))
     \<and> (\<forall>x\<in>set (wo_exercises sampleLegDay). sorted (map ws_setNumber (wx_sets x)))"
    unfolding transform_sampleRows by simp
  with 2 have "(\<exists>ids. distinct ids \<and> set ids = {100, 101}
        \<and> wo_exercises sampleLegDay = map (exerciseOut sampleRows 1) ids
        \<and> sorted (map (sourceOrder sampleRows 1) ids))
     \<and> sorted (map ws_setNumber (wx_sets (wo_exercises sampleLegDay ! 1)))"
    unfolding 1 exerciseIds_sampleRows_1 by blast
  with 3 transform_sampleRows show ?thesis by blast
qed

lemma forRows_append:
  "forRows m (xs @ ys) = bnd (forRows m xs) (\<lambda>m1. forRows m1 ys)"
proof (induction xs arbitrary: m)
  case Nil
  show ?case by (simp add: bnd_def)
next
  case (Cons r xs)
  obtain m1 where m1: "loopBody m r = Inr m1" using loopBody_total by blast
  with Cons.IH [of m1] show ?case by (simp add: bnd_def)
qed

lemma transform_skip_null:
  assumes "row_workout r = None"
  shows "transform (pre @ r # post) = transform (pre @ post)"
proof -
  obtain m1 where m1: "forRows [] pre = Inr m1" using forRows_total by blast
  have "forRows [] (pre @ r # post) = forRows m1 post"
    using m1 assms by (simp add: forRows_append bnd_def loopBody_skip)
  moreover have "forRows [] (pre @ post) = forRows m1 post"
    using m1 by (simp add: forRows_append bnd_def)
  ultimately show ?thesis by (simp add: transform_def)
qed

lemma rawSets_empty:
  assumes "\<forall>r\<in>set rows. hasExercise k e r \<longrightarrow> row_set r = None"
  shows "rawSets k e rows = []"
  using assms by (auto simp: rawSets_def setsOfRow_def)

lemma exerciseOut_no_sets:
  assumes "\<forall>r\<in>set rows. hasExercise k e r \<longrightarrow> row_set r = None"
  shows "exerciseOut rows k e = \<lparr>wx_name = sourceName rows k e, wx_sets = []\<rparr>"
  using rawSets_empty [OF assms] by (simp add: exerciseOut_def)

text \<open>
  Claim C4. The transformation returns a result for every row sequence and never raises.
  Every workout id of the rows is returned, once, and the exercises of a returned workout
  are exactly those the rows give it. Hence a workout none of whose rows carries both an
  exercise and a join record is returned, with an empty exercise list; an exercise none of
  whose rows carries a set is returned within its workout, under its name, with an empty
  set list; and a row with no workout can be removed from the input without changing the
  result.
\<close>

theorem partial_row_tolerance:
  "(\<exists>out. transform rows = Inr out
      \<and> set (map wo_id out) = workoutIds rows
      \<and> distinct (map wo_id out)
      \<and> (\<forall>wo\<in>set out. \<exists>ids. distinct ids \<and> set ids = exerciseIds rows (wo_id wo)
            \<and> wo_exercises wo = map (exerciseOut rows (wo_id wo)) ids)
      \<and> (\<forall>k\<in>workoutIds rows.
            (\<forall>r\<in>set rows. inWorkout k r \<longrightarrow>
               row_exercise r = None \<or> row_workoutExercise r = None)
            \<longrightarrow> (\<exists>wo\<in>set out. wo_id wo = k \<and> wo_exercises wo = []))
      \<and> (\<forall>k\<in>workoutIds rows. \<forall>e\<in>exerciseIds rows k.
            (\<forall>r\<in>set rows. hasExercise k e r \<longrightarrow> row_set r = None)
            \<longrightarrow> (\<exists>wo\<in>set out. wo_id wo = k
                  \<and> \<lparr>wx_name = sourceName rows k e, wx_sets = []\<rparr> \<in> set (wo_exercises wo))))
   \<and> (row_workout r = None \<longrightarrow> transform (pre @ r # post) = transform (pre @ post))"
proof -
  obtain m' where m': "forRows [] rows = Inr m'" using forRows_total by blast
  define out where "out = map toWorkoutWithExercises (map snd m')"
  have 1: "transform rows = Inr out"
    using transform_eq [OF m'] by (simp add: out_def)
  have ids: "map wo_id out = map fst m'"
    using output_ids [OF m'] by (simp add: out_def)
  have 2: "set (map wo_id out) = workoutIds rows"
    using final_keys(2) [OF m'] by (simp only: ids)
  have 3: "distinct (map wo_id out)"
    using final_keys(1) [OF m'] by (simp only: ids)
  have 4: "\<exists>ids. distinct ids \<and> set ids = exerciseIds rows (wo_id wo)
           \<and> wo_exercises wo = map (exerciseOut rows (wo_id wo)) ids" if "wo \<in> set out" for wo
  proof -
    from that obtain w where w: "map_of m' (wo_id wo) = Some w" "wo = toWorkoutWithExercises w"
      using output_workout [OF m'] unfolding out_def by blast
    from exercises_labelled [OF m' w(1)] w(2) show ?thesis by blast
  qed
  have ex: "\<exists>wo\<in>set out. wo_id wo = k" if "k \<in> workoutIds rows" for k
  proof -
    from that 2 have "k \<in> wo_id ` set out" by simp
    then show ?thesis by blast
  qed
  have 5: "\<exists>wo\<in>set out. wo_id wo = k \<and> wo_exercises wo = []"
    if k: "k \<in> workoutIds rows"
      and none: "\<forall>r\<in>set rows. inWorkout k r \<longrightarrow>
               row_exercise r = None \<or> row_workoutExercise r = None" for k
  proof -
    from ex [OF k] obtain wo where wo: "wo \<in> set out" "wo_id wo = k" by blast
    from none have "exerciseIds rows k = {}"
      by (auto simp: exerciseIds_def hasExercise_def)
    with 4 [OF wo(1)] wo(2) have "wo_exercises wo = []" by auto
    with wo show ?thesis by blast
  qed
  have 6: "\<exists>wo\<in>set out. wo_id wo = k
      \<and> \<lparr>wx_name = sourceName rows k e, wx_sets = []\<rparr> \<in> set (wo_exercises wo)"
    if k: "k \<in> workoutIds rows" and e: "e \<in> exerciseIds rows k"
      and none: "\<forall>r\<in>set rows. hasExercise k e r \<longrightarrow> row_set r = None" for k e
  proof -
    from ex [OF k] obtain wo where wo: "wo \<in> set out" "wo_id wo = k" by blast
    from 4 [OF wo(1)] wo(2) obtain ids where ids: "set ids = exerciseIds rows k"
      "wo_exercises wo = map (exerciseOut rows k) ids" by auto
    from e ids have "exerciseOut rows k e \<in> set (wo_exercises wo)" by simp
    with exerciseOut_no_sets [OF none] wo show ?thesis by auto
  qed
  from 1 2 3 4 5 6 transform_skip_null show ?thesis by blast
qed



lemma no_lunge_sets: "\<forall>r\<in>set sampleRows. hasExercise 1 101 r \<longrightarrow> row_set r = None"
  by (simp add: hasExercise_def inWorkout_def sample_defs)

lemma no_rest_exercises:
  "\<forall>r\<in>set sampleRows. inWorkout 2 r \<longrightarrow> row_exercise r = None \<or> row_workoutExercise r = None"
  by (simp add: inWorkout_def sample_defs)

lemma sourceName_lunge: "sourceName sampleRows 1 101 = ''Lunge''"
  by (simp add: sourceName_def hasExercise_def inWorkout_def entryOfRow_def sample_defs)

text \<open>
  The theorem on the sample rows: the workout with id 2 has no exercise and is returned
  with none, the exercise with id 101 has no set and is returned as Lunge with none, and
  the row with no workout is dropped.
\<close>

theorem partial_row_tolerance_witness:
  "transform sampleRows = Inr [sampleLegDay, sampleRestDay]
   \<and> workoutIds sampleRows = {1, 2}
   \<and> wo_id sampleRestDay = 2 \<and> wo_exercises sampleRestDay = []
   \<and> wo_id sampleLegDay = 1
   \<and> \<lparr>wx_name = ''Lunge'', wx_sets = []\<rparr> \<in> set (wo_exercises sampleLegDay)
   \<and> row_workout nullRow = None
   \<and> transform ([squatSet 1001 2, lungeRow] @ nullRow # [squatSet 1000 1, restRow])
       = transform ([squatSet 1001 2, lungeRow] @ [squatSet 1000 1, restRow])"
proof -
  have n: "row_workout nullRow = None" by (simp add: nullRow_def)
  have i1: "wo_id sampleLegDay = 1" and i2: "wo_id sampleRestDay = 2"
    by (simp_all add: sampleLegDay_def sampleRestDay_def)
  have k1: "(1::int) \<in> workoutIds sampleRows" and k2: "(2::int) \<in> workoutIds sampleRows"
    and e: "(101::int) \<in> exerciseIds sampleRows 1"
    by (simp_all add: workoutIds_sampleRows exerciseIds_sampleRows_1)
  note t = partial_row_tolerance [of sampleRows nullRow "[squatSet 1001 2, lungeRow]"
      "[squatSet 1000 1, restRow]", unfolded transform_sampleRows]
  from t n have 3: "transform ([squatSet 1001 2, lungeRow] @ nullRow # [squatSet 1000 1, restRow])
       = transform ([squatSet 1001 2, lungeRow] @ [squatSet 1000 1, restRow])" by blast
  from t k2 no_rest_exercises
  have "\<exists>wo\<in>set [sampleLegDay, sampleRestDay]. wo_id wo = 2 \<and> wo_exercises wo = []"
    by blast
  with i1 have 1: "wo_exercises sampleRestDay = []" by auto
  from t k1 e no_lunge_sets
  have "\<exists>wo\<in>set [sampleLegDay, sampleRestDay]. wo_id wo = 1
      \<and> \<lparr>wx_name = sourceName sampleRows 1 101, wx_sets = []\<rparr> \<in> set (wo_exercises wo)"
    by blast
  with i2 have 2: "\<lparr>wx_name = ''Lunge'', wx_sets = []\<rparr> \<in> set (wo_exercises sampleLegDay)"
    unfolding sourceName_lunge by auto
  from transform_sampleRows workoutIds_sampleRows i1 i2 1 2 n 3 show ?thesis by blast
qed

text \<open>
  Claim C5. At first sight of an exercise id within a workout, the loop body creates its
  entry with the name of the row's exercise and the \<^verbatim>\<open>order\<close> of the row's join record.
  Once the entry exists, running the loop over any further rows leaves its name and
  \<^verbatim>\<open>order\<close> unchanged and appends to its set list the set records of those rows for that
  exercise, in row order.
\<close>

theorem exercise_entry_frame:
  "(lookupExercise m k e = Some x \<longrightarrow>
      (\<exists>m' x'. forRows m rows = Inr m' \<and> lookupExercise m' k e = Some x'
         \<and> me_name x' = me_name x \<and> me_order x' = me_order x
         \<and> me_sets x' = me_sets x @ rawSets k e rows))
   \<and> (lookupExercise m k e = None \<and> inWorkout k r \<and> row_exercise r = Some re \<and> e_id re = e
        \<and> row_workoutExercise r = Some rwe \<longrightarrow>
      (\<exists>m1 x1. loopBody m r = Inr m1 \<and> lookupExercise m1 k e = Some x1
         \<and> me_name x1 = e_name re \<and> me_order x1 = we_order rwe
         \<and> me_sets x1 = setsOfRow k e r))"
proof (intro conjI impI)
  assume x: "lookupExercise m k e = Some x"
  obtain m' where m': "forRows m rows = Inr m'" using forRows_total by blast
  from lookupExercise_forRows [OF m', of k e] x
  have "lookupExercise m' k e = Some (x\<lparr>me_sets := me_sets x @ rawSets k e rows\<rparr>)" by simp
  with m' show "\<exists>m' x'. forRows m rows = Inr m' \<and> lookupExercise m' k e = Some x'
         \<and> me_name x' = me_name x \<and> me_order x' = me_order x
         \<and> me_sets x' = me_sets x @ rawSets k e rows" by auto
next
  assume a: "lookupExercise m k e = None \<and> inWorkout k r \<and> row_exercise r = Some re \<and> e_id re = e
        \<and> row_workoutExercise r = Some rwe"
  then have h: "hasExercise k e r" by (simp add: hasExercise_def)
  obtain m1 where m1: "loopBody m r = Inr m1" using loopBody_total by blast
  from lookupExercise_loopBody [OF m1, of k e] a h
  have "lookupExercise m1 k e = Some ((entryOfRow r)\<lparr>me_sets := setsOfRow k e r\<rparr>)" by simp
  with m1 a show "\<exists>m1 x1. loopBody m r = Inr m1 \<and> lookupExercise m1 k e = Some x1
         \<and> me_name x1 = e_name re \<and> me_order x1 = we_order rwe
         \<and> me_sets x1 = setsOfRow k e r"
    by (auto simp: entryOfRow_def)
qed

lemma loopBody_first: "loopBody [] (squatSet 1001 2) = Inr afterFirstRow"
  by (simp add: afterFirstRow_def sample_defs transform_defs)

lemma rawSets_rest:
  "rawSets 1 100 [lungeRow, nullRow, squatSet 1000 1, restRow] =
     [\<lparr>ws_setNumber = 1, ws_weight = Some ''225'', ws_reps = Some 5, ws_durationSeconds = None\<rparr>]"
  by (simp add: rawSets_def setsOfRow_def hasExercise_def inWorkout_def newSet_def sample_defs)

text \<open>
  The theorem on the sample rows: the first row creates the entry of exercise 100 in
  workout 1, the remaining rows append one set and change neither name nor order.
\<close>

theorem exercise_entry_frame_witness:
  "lookupExercise [] 1 100 = None
   \<and> loopBody [] (squatSet 1001 2) = Inr afterFirstRow
   \<and> lookupExercise afterFirstRow 1 100 = Some \<lparr>me_name = ''Squat'', me_order = 1, me_sets =
        [\<lparr>ws_setNumber = 2, ws_weight = Some ''225'', ws_reps = Some 5,
          ws_durationSeconds = None\<rparr>]\<rparr>
   \<and> (\<exists>m' x'. forRows afterFirstRow [lungeRow, nullRow, squatSet 1000 1, restRow] = Inr m'
         \<and> lookupExercise m' 1 100 = Some x' \<and> me_name x' = ''Squat'' \<and> me_order x' = 1
         \<and> map ws_setNumber (me_sets x') = [2, 1])"
proof -
  have 1: "lookupExercise [] 1 100 = None" by (simp add: lookupExercise_def)
  have 2: "lookupExercise afterFirstRow 1 100 = Some \<lparr>me_name = ''Squat'', me_order = 1, me_sets =
        [\<lparr>ws_setNumber = 2, ws_weight = Some ''225'', ws_reps = Some 5,
          ws_durationSeconds = None\<rparr>]\<rparr>"
    by (simp add: lookupExercise_def afterFirstRow_def)
  from exercise_entry_frame [of afterFirstRow 1 100 _
      "[lungeRow, nullRow, squatSet 1000 1, restRow]"] 2
  have "\<exists>m' x'. forRows afterFirstRow [lungeRow, nullRow, squatSet 1000 1, restRow] = Inr m'
         \<and> lookupExercise m' 1 100 = Some x' \<and> me_name x' = ''Squat'' \<and> me_order x' = 1
         \<and> map ws_setNumber (me_sets x') = [2, 1]"
    unfolding rawSets_rest by fastforce
  with 1 2 loopBody_first show ?thesis by blast
qed

section \<open>Properties of \<^verbatim>\<open>getWorkoutsForDate\<close> as a whole\<close>

text \<open>
  Claim C10. For every date, when authentication yields no user id (\<^verbatim>\<open>null\<close>, or the
  empty string, which is falsy too), \<^verbatim>\<open>getWorkoutsForDate\<close> throws the error
  "Unauthorized" and has issued no query: no row is read and no result is produced.
\<close>

theorem unauthorized_before_query:
  "getWorkoutsForDate tz None db date = ([], Inl Unauthorized)
   \<and> getWorkoutsForDate tz (Some []) db date = ([], Inl Unauthorized)"
  by (simp add: getWorkoutsForDate_def)

text \<open>The theorem on the sample database.\<close>

theorem unauthorized_before_query_witness:
  "getWorkoutsForDate 0 None sampleDb (Date 1756700000000) = ([], Inl Unauthorized)"
  using unauthorized_before_query [of 0 sampleDb "Date 1756700000000"] by simp












text \<open>With a bound that is an invalid Date the query raises the RangeError.\<close>

lemma invalid_bounds_raise:
  assumes "userId \<noteq> []" and "dayBounds tz date = (a, b)" and "a = InvalidDate \<or> b = InvalidDate"
  shows "snd (getWorkoutsForDate tz (Some userId) db date) = Inl RangeError"
  using assms
  by (auto simp: getWorkoutsForDate_def selectWorkoutsData_def bnd_def split: date.splits)


lemmas query_defs =
  getWorkoutsForDate_def dayBounds_def newDate_def msPerDay_def dayStart_def timeClip_def
  maxTime_def selectWorkoutsData_def whereClause_def leftJoins_def joinWorkoutExercises_def
  joinExercises_def joinSets_def sampleDb_def




lemma sample_query:
  "snd (getWorkoutsForDate 0 (Some ''user_1'') sampleDb (Date 1756700000000)) =
     Inr [\<lparr>wo_id = 1, wo_name = Some ''Leg Day'', wo_startedAt = 1756684800000,
           wo_completedAt = None,
           wo_exercises = [\<lparr>wx_name = ''Squat'', wx_sets =
             [\<lparr>ws_setNumber = 1, ws_weight = Some ''225'', ws_reps = Some 5,
               ws_durationSeconds = None\<rparr>]\<rparr>]\<rparr>]"
  by (simp add: query_defs transform_defs)


section \<open>Invalid dates\<close>



text \<open>
  The guard does not look at the range of a Date: \<^verbatim>\<open>?date=275760-09-13\<close> gives the dashboard
  page, in UTC, the largest time value, a valid Date whose end of day is invalid.
\<close>

lemma dayBounds_last_day:
  "dashboardPageDate now (Some (localInstant 0 275760 9 13 0)) = Date 8640000000000000
   \<and> dayBounds 0 (Date 8640000000000000) = (Date 8640000000000000, InvalidDate)"
  by (simp add: dashboardPageDate_def localInstant_def daysFromCivil_def Let_def query_defs)






section \<open>Reordering the rows\<close>

lemma inWorkout_iff: "inWorkout k r \<longleftrightarrow> rowWorkoutId r = Some k"
  by (simp add: inWorkout_def rowWorkoutId_def)

lemma hasExercise_iff: "hasExercise k e r \<longleftrightarrow> rowWorkoutId r = Some k \<and> rowExerciseId r = Some e"
  unfolding hasExercise_def inWorkout_def rowWorkoutId_def rowExerciseId_def
  by (cases "row_workout r"; cases "row_workoutExercise r"; cases "row_exercise r") simp_all

lemma setsOfRow_rowSets: "setsOfRow k e r = (if hasExercise k e r then rowSets r else [])"
  by (simp add: setsOfRow_def rowSets_def)

lemma inWorkout_same: "inWorkout k r1 \<Longrightarrow> inWorkout k r2 \<Longrightarrow> sameWorkout r1 r2"
  by (simp add: inWorkout_iff sameWorkout_def)

lemma hasExercise_both:
  "hasExercise k e1 r1 \<Longrightarrow> hasExercise k e2 r2 \<Longrightarrow> bothExercises r1 r2"
  by (simp add: hasExercise_iff bothExercises_def sameWorkout_def)

lemma hasExercise_id: "hasExercise k e r \<Longrightarrow> rowExerciseId r = Some e"
  by (simp add: hasExercise_iff)

lemma agree_workout:
  assumes "consistentWorkouts rows" and "r1 \<in> set rows" and "r2 \<in> set rows"
    and "inWorkout k r1" and "inWorkout k r2"
  shows "map_option newWorkout (row_workout r1) = map_option newWorkout (row_workout r2)"
  using assms(1-3) inWorkout_same [OF assms(4,5)]
  unfolding consistentWorkouts_def by blast

lemma agree_name:
  assumes "consistentNames rows" and "r1 \<in> set rows" and "r2 \<in> set rows"
    and "hasExercise k e r1" and "hasExercise k e r2"
  shows "me_name (entryOfRow r1) = me_name (entryOfRow r2)"
proof -
  have "rowExerciseId r1 = rowExerciseId r2"
    using hasExercise_id [OF assms(4)] hasExercise_id [OF assms(5)] by simp
  then show ?thesis
    using assms(1-3) hasExercise_both [OF assms(4,5)]
    unfolding consistentNames_def by blast
qed

lemma agree_order:
  assumes "consistentOrders rows" and "r1 \<in> set rows" and "r2 \<in> set rows"
    and "hasExercise k e r1" and "hasExercise k e r2"
  shows "me_order (entryOfRow r1) = me_order (entryOfRow r2)"
proof -
  have "rowExerciseId r1 = rowExerciseId r2"
    using hasExercise_id [OF assms(4)] hasExercise_id [OF assms(5)] by simp
  then show ?thesis
    using assms(1-3) hasExercise_both [OF assms(4,5)]
    unfolding consistentOrders_def by blast
qed

lemma agree_order_inj:
  assumes "distinctOrders rows" and "r1 \<in> set rows" and "r2 \<in> set rows"
    and "hasExercise k e1 r1" and "hasExercise k e2 r2"
    and "me_order (entryOfRow r1) = me_order (entryOfRow r2)"
  shows "e1 = e2"
proof -
  from assms(1-3,6) hasExercise_both [OF assms(4,5)]
  have "rowExerciseId r1 = rowExerciseId r2"
    unfolding distinctOrders_def by blast
  with hasExercise_id [OF assms(4)] hasExercise_id [OF assms(5)] show ?thesis by simp
qed

lemma agree_sets:
  assumes c: "consistentSets rows" and "r1 \<in> set rows" and "r2 \<in> set rows"
    and "s1 \<in> set (setsOfRow k e r1)" and "s2 \<in> set (setsOfRow k e r2)"
    and "ws_setNumber s1 = ws_setNumber s2"
  shows "s1 = s2"
proof -
  have h1: "hasExercise k e r1" and m1: "s1 \<in> set (rowSets r1)"
    using assms(4) by (cases "hasExercise k e r1"; simp add: setsOfRow_rowSets)+
  have h2: "hasExercise k e r2" and m2: "s2 \<in> set (rowSets r2)"
    using assms(5) by (cases "hasExercise k e r2"; simp add: setsOfRow_rowSets)+
  have "rowExerciseId r1 = rowExerciseId r2"
    using hasExercise_id [OF h1] hasExercise_id [OF h2] by simp
  with c assms(2,3) hasExercise_both [OF h1 h2]
  have "\<forall>s1\<in>set (rowSets r1). \<forall>s2\<in>set (rowSets r2).
           ws_setNumber s1 = ws_setNumber s2 \<longrightarrow> s1 = s2"
    unfolding consistentSets_def by blast
  with m1 m2 assms(6) show ?thesis by blast
qed

lemma find_in:
  assumes "find P xs = Some x"
  shows "x \<in> set xs" and "P x"
  using assms by (auto simp: find_Some_iff)

lemma find_exists:
  assumes "x \<in> set xs" and "P x"
  shows "\<exists>y. find P xs = Some y"
  using assms by (cases "find P xs") (auto simp: find_None_iff)

lemma mset_rawSets:
  assumes "mset rows' = mset rows"
  shows "mset (rawSets k e rows') = mset (rawSets k e rows)"
proof -
  have "mset (rawSets k e xs) = (\<Sum>r\<in>#mset xs. mset (setsOfRow k e r))" for xs
    by (induction xs) (simp_all add: rawSets_def)
  with assms show ?thesis by simp
qed

lemma set_rawSets: "s \<in> set (rawSets k e rows) \<longleftrightarrow> (\<exists>r\<in>set rows. s \<in> set (setsOfRow k e r))"
  by (auto simp: rawSets_def)

lemma sorted_rawSets_eq:
  assumes "consistentSets rows" and "mset rows' = mset rows"
  shows "sort_key ws_setNumber (rawSets k e rows') = sort_key ws_setNumber (rawSets k e rows)"
proof (rule sort_key_inj_key_eq)
  show "mset (rawSets k e rows') = mset (sort_key ws_setNumber (rawSets k e rows))"
    using mset_rawSets [OF assms(2)] by simp
  show "sorted (map ws_setNumber (sort_key ws_setNumber (rawSets k e rows)))"
    by (rule sorted_sort_key)
  have "set (rawSets k e rows') = set (rawSets k e rows)"
    using mset_rawSets [OF assms(2), of k e] by (rule mset_eq_setD)
  moreover have "inj_on ws_setNumber (set (rawSets k e rows))"
  proof (rule inj_onI)
    fix s1 s2
    assume "s1 \<in> set (rawSets k e rows)" "s2 \<in> set (rawSets k e rows)"
      and eq: "ws_setNumber s1 = ws_setNumber s2"
    then obtain r1 r2 where "r1 \<in> set rows" "s1 \<in> set (setsOfRow k e r1)"
      "r2 \<in> set rows" "s2 \<in> set (setsOfRow k e r2)"
      unfolding set_rawSets by blast
    with agree_sets [OF assms(1) _ _ _ _ eq] show "s1 = s2" by blast
  qed
  ultimately show "inj_on ws_setNumber (set (rawSets k e rows'))" by simp
qed

lemma first_rows:
  assumes "set rows' = set rows" and "e \<in> exerciseIds rows k"
  obtains r r' where "find (hasExercise k e) rows = Some r" "r \<in> set rows" "hasExercise k e r"
    and "find (hasExercise k e) rows' = Some r'" "r' \<in> set rows" "hasExercise k e r'"
proof -
  from assms(2) obtain r0 where r0: "r0 \<in> set rows" "hasExercise k e r0"
    by (auto simp: exerciseIds_def)
  obtain r where r: "find (hasExercise k e) rows = Some r"
    using find_exists [of r0 rows "hasExercise k e"] r0 by blast
  from r0 assms(1) have "r0 \<in> set rows'" by simp
  then obtain r' where r': "find (hasExercise k e) rows' = Some r'"
    using find_exists [of r0 rows' "hasExercise k e"] r0(2) by blast
  from find_in [OF r] find_in [OF r'] assms(1) r r' that show ?thesis by simp
qed

lemma sourceName_eq:
  assumes "consistentNames rows" and "set rows' = set rows" and "e \<in> exerciseIds rows k"
  shows "sourceName rows' k e = sourceName rows k e"
proof -
  from first_rows [OF assms(2,3)] obtain r r' where
    r: "find (hasExercise k e) rows = Some r" "r \<in> set rows" "hasExercise k e r"
    and r': "find (hasExercise k e) rows' = Some r'" "r' \<in> set rows" "hasExercise k e r'"
    by blast
  from agree_name [OF assms(1) r'(2) r(2) r'(3) r(3)]
  show ?thesis by (simp add: sourceName_def r(1) r'(1))
qed

lemma sourceOrder_eq:
  assumes "consistentOrders rows" and "set rows' = set rows" and "e \<in> exerciseIds rows k"
  shows "sourceOrder rows' k e = sourceOrder rows k e"
proof -
  from first_rows [OF assms(2,3)] obtain r r' where
    r: "find (hasExercise k e) rows = Some r" "r \<in> set rows" "hasExercise k e r"
    and r': "find (hasExercise k e) rows' = Some r'" "r' \<in> set rows" "hasExercise k e r'"
    by blast
  from agree_order [OF assms(1) r'(2) r(2) r'(3) r(3)]
  show ?thesis by (simp add: sourceOrder_def r(1) r'(1))
qed

lemma sourceOrder_inj:
  assumes "distinctOrders rows"
  shows "inj_on (sourceOrder rows k) (exerciseIds rows k)"
proof (rule inj_onI)
  fix e1 e2
  assume e1: "e1 \<in> exerciseIds rows k" and e2: "e2 \<in> exerciseIds rows k"
    and eq: "sourceOrder rows k e1 = sourceOrder rows k e2"
  from first_rows [OF refl e1] obtain r1 where
    r1: "find (hasExercise k e1) rows = Some r1" "r1 \<in> set rows" "hasExercise k e1 r1" by blast
  from first_rows [OF refl e2] obtain r2 where
    r2: "find (hasExercise k e2) rows = Some r2" "r2 \<in> set rows" "hasExercise k e2 r2" by blast
  from eq have "me_order (entryOfRow r1) = me_order (entryOfRow r2)"
    by (simp add: sourceOrder_def r1(1) r2(1))
  with agree_order_inj [OF assms r1(2) r2(2) r1(3) r2(3)] show "e1 = e2" by blast
qed

lemma exerciseContent_eq:
  assumes "consistentNames rows" and "mset rows' = mset rows" and "e \<in> exerciseIds rows k"
  shows "exerciseContent (exerciseOut rows' k e) = exerciseContent (exerciseOut rows k e)"
proof -
  have s: "set rows' = set rows" using assms(2) by (rule mset_eq_setD)
  show ?thesis
    using sourceName_eq [OF assms(1) s assms(3)] mset_rawSets [OF assms(2), of k e]
    by (simp add: exerciseContent_def exerciseOut_def)
qed

lemma exerciseOut_eq:
  assumes "consistentNames rows" and "consistentSets rows" and "mset rows' = mset rows"
    and "e \<in> exerciseIds rows k"
  shows "exerciseOut rows' k e = exerciseOut rows k e"
proof -
  have s: "set rows' = set rows" using assms(3) by (rule mset_eq_setD)
  show ?thesis
    using sourceName_eq [OF assms(1) s assms(4)] sorted_rawSets_eq [OF assms(2,3), of k e]
    by (simp add: exerciseOut_def)
qed

text \<open>
  The same workout id in the results for a row list and for a permutation of it: the
  labels of the two exercise lists.
\<close>

lemma workout_perm_labels:
  assumes W: "consistentWorkouts rows" and p: "mset rows' = mset rows"
    and m: "forRows [] rows = Inr m" and m': "forRows [] rows' = Inr m'"
    and w: "map_of m k = Some w" and w': "map_of m' k = Some w'"
  obtains ids ids' where "distinct ids" and "distinct ids'"
    and "set ids = exerciseIds rows k" and "set ids' = exerciseIds rows k"
    and "sorted (map (sourceOrder rows k) ids)" and "sorted (map (sourceOrder rows' k) ids')"
    and "wo_exercises (toWorkoutWithExercises w) = map (exerciseOut rows k) ids"
    and "wo_exercises (toWorkoutWithExercises w') = map (exerciseOut rows' k) ids'"
    and "outFields (toWorkoutWithExercises w') = outFields (toWorkoutWithExercises w)"
proof -
  have s: "set rows' = set rows" using p by (rule mset_eq_setD)
  have ex: "exerciseIds rows' k = exerciseIds rows k"
    by (simp add: exerciseIds_def s)
  from final_workout [OF m w] obtain r rw where
    r: "find (inWorkout k) rows = Some r" "row_workout r = Some rw"
      "workoutFields w = workoutFields (newWorkout rw)" by blast
  from final_workout [OF m' w'] obtain r' rw' where
    r': "find (inWorkout k) rows' = Some r'" "row_workout r' = Some rw'"
      "workoutFields w' = workoutFields (newWorkout rw')" by blast
  from find_in [OF r(1)] find_in [OF r'(1)] s
  have "r \<in> set rows" "inWorkout k r" "r' \<in> set rows" "inWorkout k r'" by simp_all
  from agree_workout [OF W this(3) this(1) this(4) this(2)] r(2) r'(2)
  have "newWorkout rw' = newWorkout rw" by simp
  with r(3) r'(3) have "workoutFields w' = workoutFields w" by simp
  then have f: "outFields (toWorkoutWithExercises w') = outFields (toWorkoutWithExercises w)"
    by (simp add: workoutFields_def outFields_def toWorkoutWithExercises_def)
  from exercises_labelled [OF m w] obtain ids where
    ids: "distinct ids" "set ids = exerciseIds rows k" "sorted (map (sourceOrder rows k) ids)"
      "wo_exercises (toWorkoutWithExercises w) = map (exerciseOut rows k) ids" by blast
  from exercises_labelled [OF m' w'] ex obtain ids' where
    ids': "distinct ids'" "set ids' = exerciseIds rows k"
      "sorted (map (sourceOrder rows' k) ids')"
      "wo_exercises (toWorkoutWithExercises w') = map (exerciseOut rows' k) ids'" by auto
  show ?thesis
    by (rule that [OF ids(1) ids'(1) ids(2) ids'(2) ids(3) ids'(3) ids(4) ids'(4) f])
qed

lemma same_labels:
  assumes O: "consistentOrders rows" and D: "distinctOrders rows"
    and s: "set rows' = set rows"
    and "distinct ids" and "distinct ids'"
    and "set ids = exerciseIds rows k" and "set ids' = exerciseIds rows k"
    and "sorted (map (sourceOrder rows k) ids)" and "sorted (map (sourceOrder rows' k) ids')"
  shows "ids = ids'"
proof -
  have "map (sourceOrder rows' k) ids' = map (sourceOrder rows k) ids'"
    using sourceOrder_eq [OF O s] assms(7) by simp
  with assms(9) have so': "sorted (map (sourceOrder rows k) ids')" by simp
  have inj: "inj_on (sourceOrder rows k) (set ids \<union> set ids')"
    using sourceOrder_inj [OF D, of k] assms(6,7) by simp
  have d: "distinct (map (sourceOrder rows k) ids)" "distinct (map (sourceOrder rows k) ids')"
    using inj assms(4,5) by (simp_all add: distinct_map inj_on_Un)
  show ?thesis
    using map_sorted_distinct_set_unique [OF inj assms(8) d(1) so' d(2)] assms(6,7) by simp
qed

lemma workout_perm_content:
  assumes W: "consistentWorkouts rows" and N: "consistentNames rows"
    and p: "mset rows' = mset rows"
    and m: "forRows [] rows = Inr m" and m': "forRows [] rows' = Inr m'"
    and w: "map_of m k = Some w" and w': "map_of m' k = Some w'"
  shows "unorderedContent (toWorkoutWithExercises w') = unorderedContent (toWorkoutWithExercises w)"
proof -
  obtain ids ids' where
    l: "distinct ids" "distinct ids'" "set ids = exerciseIds rows k"
      "set ids' = exerciseIds rows k"
      "sorted (map (sourceOrder rows k) ids)" "sorted (map (sourceOrder rows' k) ids')"
      "wo_exercises (toWorkoutWithExercises w) = map (exerciseOut rows k) ids"
      "wo_exercises (toWorkoutWithExercises w') = map (exerciseOut rows' k) ids'"
      "outFields (toWorkoutWithExercises w') = outFields (toWorkoutWithExercises w)"
    by (rule workout_perm_labels [OF W p m m' w w'])
  from l(4) l(3) have "set ids' = set ids" by (rule trans_sym)
  then have ms: "mset ids' = mset ids"
    by (rule set_eq_iff_mset_eq_distinct [OF l(2) l(1), THEN iffD1])
  have c: "exerciseContent (exerciseOut rows' k e) = exerciseContent (exerciseOut rows k e)"
    if "e \<in> set ids" for e
    using that exerciseContent_eq [OF N p, of e k] by (simp only: l(3))
  have "mset (map (\<lambda>e. exerciseContent (exerciseOut rows' k e)) ids') =
      image_mset (\<lambda>e. exerciseContent (exerciseOut rows' k e)) (mset ids)"
    by (simp only: mset_map ms)
  also have "\<dots> = image_mset (\<lambda>e. exerciseContent (exerciseOut rows k e)) (mset ids)"
    by (rule image_mset_cong) (simp only: set_mset_mset c)
  also have "\<dots> = mset (map (\<lambda>e. exerciseContent (exerciseOut rows k e)) ids)"
    by (simp only: mset_map)
  finally have "mset (map exerciseContent (wo_exercises (toWorkoutWithExercises w'))) =
      mset (map exerciseContent (wo_exercises (toWorkoutWithExercises w)))"
    by (simp only: l(7,8) map_map comp_def)
  with l(9) show ?thesis
    by (simp only: unorderedContent_def)
qed

lemma workout_perm_exercises:
  assumes W: "consistentWorkouts rows" and N: "consistentNames rows"
    and O: "consistentOrders rows" and D: "distinctOrders rows"
    and p: "mset rows' = mset rows"
    and m: "forRows [] rows = Inr m" and m': "forRows [] rows' = Inr m'"
    and w: "map_of m k = Some w" and w': "map_of m' k = Some w'"
  shows "exercisesInOrder (toWorkoutWithExercises w') = exercisesInOrder (toWorkoutWithExercises w)"
proof -
  have s: "set rows' = set rows" using p by (rule mset_eq_setD)
  obtain ids ids' where
    l: "distinct ids" "distinct ids'" "set ids = exerciseIds rows k"
      "set ids' = exerciseIds rows k"
      "sorted (map (sourceOrder rows k) ids)" "sorted (map (sourceOrder rows' k) ids')"
      "wo_exercises (toWorkoutWithExercises w) = map (exerciseOut rows k) ids"
      "wo_exercises (toWorkoutWithExercises w') = map (exerciseOut rows' k) ids'"
      "outFields (toWorkoutWithExercises w') = outFields (toWorkoutWithExercises w)"
    by (rule workout_perm_labels [OF W p m m' w w'])
  have eq: "ids = ids'" using same_labels [OF O D s l(1-6)] .
  have "map exerciseContent (map (exerciseOut rows' k) ids) =
      map exerciseContent (map (exerciseOut rows k) ids)"
    using exerciseContent_eq [OF N p] l(3) by simp
  then show ?thesis
    by (simp add: exercisesInOrder_def l(7,8,9) eq [symmetric])
qed

lemma workout_perm_sets:
  assumes W: "consistentWorkouts rows" and N: "consistentNames rows"
    and S: "consistentSets rows"
    and p: "mset rows' = mset rows"
    and m: "forRows [] rows = Inr m" and m': "forRows [] rows' = Inr m'"
    and w: "map_of m k = Some w" and w': "map_of m' k = Some w'"
  shows "setsInOrder (toWorkoutWithExercises w') = setsInOrder (toWorkoutWithExercises w)"
proof -
  obtain ids ids' where
    l: "distinct ids" "distinct ids'" "set ids = exerciseIds rows k"
      "set ids' = exerciseIds rows k"
      "sorted (map (sourceOrder rows k) ids)" "sorted (map (sourceOrder rows' k) ids')"
      "wo_exercises (toWorkoutWithExercises w) = map (exerciseOut rows k) ids"
      "wo_exercises (toWorkoutWithExercises w') = map (exerciseOut rows' k) ids'"
      "outFields (toWorkoutWithExercises w') = outFields (toWorkoutWithExercises w)"
    by (rule workout_perm_labels [OF W p m m' w w'])
  from l(4) l(3) have "set ids' = set ids" by (rule trans_sym)
  then have ms: "mset ids' = mset ids"
    by (rule set_eq_iff_mset_eq_distinct [OF l(2) l(1), THEN iffD1])
  have c: "exerciseOut rows' k e = exerciseOut rows k e" if "e \<in> set ids" for e
    using that exerciseOut_eq [OF N S p, of e k] by (simp only: l(3))
  have "mset (map (exerciseOut rows' k) ids') = image_mset (exerciseOut rows' k) (mset ids)"
    by (simp only: mset_map ms)
  also have "\<dots> = image_mset (exerciseOut rows k) (mset ids)"
    by (rule image_mset_cong) (simp only: set_mset_mset c)
  also have "\<dots> = mset (map (exerciseOut rows k) ids)"
    by (simp only: mset_map)
  finally have "mset (wo_exercises (toWorkoutWithExercises w')) =
      mset (wo_exercises (toWorkoutWithExercises w))"
    by (simp only: l(7,8))
  with l(9) show ?thesis
    by (simp only: setsInOrder_def)
qed

lemma workout_perm_eq:
  assumes W: "consistentWorkouts rows" and N: "consistentNames rows"
    and O: "consistentOrders rows" and D: "distinctOrders rows" and S: "consistentSets rows"
    and p: "mset rows' = mset rows"
    and m: "forRows [] rows = Inr m" and m': "forRows [] rows' = Inr m'"
    and w: "map_of m k = Some w" and w': "map_of m' k = Some w'"
  shows "toWorkoutWithExercises w' = toWorkoutWithExercises w"
proof -
  have s: "set rows' = set rows" using p by (rule mset_eq_setD)
  obtain ids ids' where
    l: "distinct ids" "distinct ids'" "set ids = exerciseIds rows k"
      "set ids' = exerciseIds rows k"
      "sorted (map (sourceOrder rows k) ids)" "sorted (map (sourceOrder rows' k) ids')"
      "wo_exercises (toWorkoutWithExercises w) = map (exerciseOut rows k) ids"
      "wo_exercises (toWorkoutWithExercises w') = map (exerciseOut rows' k) ids'"
      "outFields (toWorkoutWithExercises w') = outFields (toWorkoutWithExercises w)"
    by (rule workout_perm_labels [OF W p m m' w w'])
  have eq: "ids = ids'" using same_labels [OF O D s l(1-6)] .
  have "map (exerciseOut rows' k) ids = map (exerciseOut rows k) ids"
    using exerciseOut_eq [OF N S p] l(3) by simp
  with l(7,8) eq
  have e: "wo_exercises (toWorkoutWithExercises w') = wo_exercises (toWorkoutWithExercises w)"
    by simp
  from l(9) have "wo_id (toWorkoutWithExercises w') = wo_id (toWorkoutWithExercises w)"
    "wo_name (toWorkoutWithExercises w') = wo_name (toWorkoutWithExercises w)"
    "wo_startedAt (toWorkoutWithExercises w') = wo_startedAt (toWorkoutWithExercises w)"
    "wo_completedAt (toWorkoutWithExercises w') = wo_completedAt (toWorkoutWithExercises w)"
    by (simp_all add: outFields_def)
  with e show ?thesis by simp
qed

text \<open>From each workout id to the whole result, read through a projection \<open>P\<close>.\<close>

lemma values_by_key:
  assumes "distinct (map fst m)"
  shows "map (\<lambda>p. F (snd p)) m = map (\<lambda>k. F (the (map_of m k))) (map fst m)"
proof -
  have "F (snd p) = F (the (map_of m (fst p)))" if "p \<in> set m" for p
  proof -
    from that have "(fst p, snd p) \<in> set m" by simp
    with assms have "map_of m (fst p) = Some (snd p)" by (rule map_of_is_SomeI)
    then show ?thesis by simp
  qed
  then show ?thesis by simp
qed

lemma result_perm:
  assumes p: "set rows' = set rows"
    and m: "forRows [] rows = Inr m" and m': "forRows [] rows' = Inr m'"
    and eq: "\<And>k w w'. map_of m k = Some w \<Longrightarrow> map_of m' k = Some w' \<Longrightarrow>
        P (toWorkoutWithExercises w') = P (toWorkoutWithExercises w)"
  shows "mset (map P (map toWorkoutWithExercises (map snd m'))) =
     mset (map P (map toWorkoutWithExercises (map snd m)))"
proof -
  let ?F = "\<lambda>w. P (toWorkoutWithExercises w)"
  have d: "distinct (map fst m)" "distinct (map fst m')"
    using final_keys(1) [OF m] final_keys(1) [OF m'] by simp_all
  have "set (map fst m') = set (map fst m)"
    using final_keys(2) [OF m] final_keys(2) [OF m'] by (simp add: workoutIds_def p)
  with d have keys: "mset (map fst m') = mset (map fst m)"
    using set_eq_iff_mset_eq_distinct [of "map fst m'" "map fst m"] by blast
  have agree: "?F (the (map_of m' k)) = ?F (the (map_of m k))" if "k \<in> set (map fst m)" for k
  proof -
    from that have "map_of m k \<noteq> None" by (simp add: map_of_eq_None_iff)
    moreover from that mset_eq_setD [OF keys] have "k \<in> set (map fst m')" by blast
    then have "map_of m' k \<noteq> None" by (simp add: map_of_eq_None_iff)
    ultimately obtain w w' where "map_of m k = Some w" "map_of m' k = Some w'" by blast
    with eq [of k w w'] show ?thesis by simp
  qed
  have v': "mset (map (\<lambda>p. ?F (snd p)) m') =
      image_mset (\<lambda>k. ?F (the (map_of m' k))) (mset (map fst m'))"
    using arg_cong [OF values_by_key [OF d(2), of ?F], of mset] by (simp only: mset_map)
  have v: "mset (map (\<lambda>p. ?F (snd p)) m) =
      image_mset (\<lambda>k. ?F (the (map_of m k))) (mset (map fst m))"
    using arg_cong [OF values_by_key [OF d(1), of ?F], of mset] by (simp only: mset_map)
  have c: "image_mset (\<lambda>k. ?F (the (map_of m' k))) (mset (map fst m))
      = image_mset (\<lambda>k. ?F (the (map_of m k))) (mset (map fst m))"
    by (rule image_mset_cong) (use agree in simp)
  have "mset (map (\<lambda>p. ?F (snd p)) m') = mset (map (\<lambda>p. ?F (snd p)) m)"
    unfolding v v' keys by (rule c)
  then show ?thesis by (simp only: map_map comp_def)
qed

lemmas perm_defs = squatAt_def lungeAt_def squatWeight_def renamedWorkout_def renamedExercise_def
  legDay_def workoutNames_def exerciseNames_def setWeights_def transform_defs

text \<open>
  Claim C3, as stated, fails, in both its halves. In each of the five pairs the second
  input is a permutation of the first. The order of the returned exercises or sets
  differs where exercises have equal \<^verbatim>\<open>order\<close> (they come out in the order the rows meet
  them), where an exercise is linked to a workout by two join records (it takes the
  \<^verbatim>\<open>order\<close> of the one met first), and where sets have equal \<^verbatim>\<open>setNumber\<close> (they come out
  in row order). The content itself differs where rows of one workout id, or of one
  exercise id, disagree on the name: the first row met gives the name.
\<close>

theorem reordering_counterexample:
  "mset [lungeAt 0, squatAt 10 0] = mset [squatAt 10 0, lungeAt 0]
   \<and> exerciseNames (transform [squatAt 10 0, lungeAt 0]) = [[''Squat'', ''Lunge'']]
   \<and> exerciseNames (transform [lungeAt 0, squatAt 10 0]) = [[''Lunge'', ''Squat'']]
   \<and> mset [squatAt 12 2, lungeAt 1, squatAt 10 0] = mset [squatAt 10 0, lungeAt 1, squatAt 12 2]
   \<and> exerciseNames (transform [squatAt 10 0, lungeAt 1, squatAt 12 2]) = [[''Squat'', ''Lunge'']]
   \<and> exerciseNames (transform [squatAt 12 2, lungeAt 1, squatAt 10 0]) = [[''Lunge'', ''Squat'']]
   \<and> mset [squatWeight 2 ''200'', squatWeight 1 ''100'']
       = mset [squatWeight 1 ''100'', squatWeight 2 ''200'']
   \<and> setWeights (transform [squatWeight 1 ''100'', squatWeight 2 ''200''])
       = [[[Some ''100'', Some ''200'']]]
   \<and> setWeights (transform [squatWeight 2 ''200'', squatWeight 1 ''100''])
       = [[[Some ''200'', Some ''100'']]]
   \<and> mset [renamedWorkout ''Push'', renamedWorkout ''Pull'']
       = mset [renamedWorkout ''Pull'', renamedWorkout ''Push'']
   \<and> workoutNames (transform [renamedWorkout ''Pull'', renamedWorkout ''Push'']) = [Some ''Pull'']
   \<and> workoutNames (transform [renamedWorkout ''Push'', renamedWorkout ''Pull'']) = [Some ''Push'']
   \<and> mset [renamedExercise ''Back Squat'', renamedExercise ''Squat'']
       = mset [renamedExercise ''Squat'', renamedExercise ''Back Squat'']
   \<and> exerciseNames (transform [renamedExercise ''Squat'', renamedExercise ''Back Squat''])
       = [[''Squat'']]
   \<and> exerciseNames (transform [renamedExercise ''Back Squat'', renamedExercise ''Squat''])
       = [[''Back Squat'']]"
  by (simp add: perm_defs)

text \<open>
  Claim C3, amended. Let the rows agree on what one id stands for: rows with the same
  workout id carry the same workout fields, and within a workout rows with the same
  exercise id carry the same exercise name. Then the transformation of any permutation of
  the rows returns the same workouts, exercises and sets as unordered content. If besides,
  within a workout, rows with the same exercise id carry the same \<^verbatim>\<open>order\<close> and different
  exercise ids have different \<^verbatim>\<open>order\<close> values, the exercises of each workout come in the
  same order in both runs. If besides, within an exercise, set records with the same
  \<^verbatim>\<open>setNumber\<close> are equal, the sets of each exercise come in the same order in both runs.
  With all of these the two results hold the same workouts with the same lists; only the
  order of the workouts may differ.
\<close>

theorem reordering_consistent_rows:
  assumes "consistentWorkouts rows" and "consistentNames rows" and "mset rows' = mset rows"
  shows "\<exists>out out'. transform rows = Inr out \<and> transform rows' = Inr out'
     \<and> mset (map unorderedContent out') = mset (map unorderedContent out)
     \<and> (consistentOrders rows \<and> distinctOrders rows \<longrightarrow>
          mset (map exercisesInOrder out') = mset (map exercisesInOrder out))
     \<and> (consistentSets rows \<longrightarrow> mset (map setsInOrder out') = mset (map setsInOrder out))
     \<and> (consistentOrders rows \<and> distinctOrders rows \<and> consistentSets rows \<longrightarrow>
          mset out' = mset out)"
proof -
  obtain m where m: "forRows [] rows = Inr m" using forRows_total by blast
  obtain m' where m': "forRows [] rows' = Inr m'" using forRows_total by blast
  define out where "out = map toWorkoutWithExercises (map snd m)"
  define out' where "out' = map toWorkoutWithExercises (map snd m')"
  have t: "transform rows = Inr out" "transform rows' = Inr out'"
    using transform_eq [OF m] transform_eq [OF m'] by (simp_all add: out_def out'_def)
  have s: "set rows' = set rows" using assms(3) by (rule mset_eq_setD)
  have 1: "mset (map unorderedContent out') = mset (map unorderedContent out)"
    unfolding out_def out'_def
    by (rule result_perm [OF s m m']) (rule workout_perm_content [OF assms m m'])
  have 2: "mset (map exercisesInOrder out') = mset (map exercisesInOrder out)"
    if "consistentOrders rows" "distinctOrders rows"
    unfolding out_def out'_def
    by (rule result_perm [OF s m m'])
       (rule workout_perm_exercises [OF assms(1,2) that assms(3) m m'])
  have 3: "mset (map setsInOrder out') = mset (map setsInOrder out)"
    if "consistentSets rows"
    unfolding out_def out'_def
    by (rule result_perm [OF s m m'])
       (rule workout_perm_sets [OF assms(1,2) that assms(3) m m'])
  have 4: "mset out' = mset out"
    if "consistentOrders rows" "distinctOrders rows" "consistentSets rows"
  proof -
    have "mset (map id out') = mset (map id out)"
      unfolding out_def out'_def
      by (rule result_perm [OF s m m'])
         (simp add: workout_perm_eq [OF assms(1,2) that assms(3) m m'])
    then show ?thesis by simp
  qed
  from t 1 2 3 4 show ?thesis by blast
qed

lemma consistentWorkouts_tie: "consistentWorkouts [squatAt 10 0, lungeAt 0]"
  by code_simp

lemma consistentNames_tie: "consistentNames [squatAt 10 0, lungeAt 0]"
  by code_simp

lemmas consistent_tie = consistentWorkouts_tie consistentNames_tie

lemma consistentWorkouts_sampleRows: "consistentWorkouts sampleRows"
  by code_simp

lemma consistentNames_sampleRows: "consistentNames sampleRows"
  by code_simp

lemma consistentOrders_sampleRows: "consistentOrders sampleRows"
  by code_simp

lemma distinctOrders_sampleRows: "distinctOrders sampleRows"
  by code_simp

lemma consistentSets_sampleRows: "consistentSets sampleRows"
  by code_simp

lemmas consistent_sampleRows = consistentWorkouts_sampleRows consistentNames_sampleRows
  consistentOrders_sampleRows distinctOrders_sampleRows consistentSets_sampleRows

lemma transform_rev_sampleRows: "transform (rev sampleRows) = Inr [sampleRestDay, sampleLegDay]"
  by (simp add: sample_defs transform_defs)

lemma transform_tie:
  "transform [squatAt 10 0, lungeAt 0] = Inr [tieResult [''Squat'', ''Lunge'']]"
  "transform [lungeAt 0, squatAt 10 0] = Inr [tieResult [''Lunge'', ''Squat'']]"
  by (simp_all add: tieResult_def perm_defs)

text \<open>
  The theorem on two exercises with equal \<^verbatim>\<open>order\<close>, where the two results differ and
  have the same unordered content, and on the sample rows and their reversal, where the
  two results hold the same workouts.
\<close>

theorem reordering_consistent_rows_witness:
  "consistentWorkouts [squatAt 10 0, lungeAt 0] \<and> consistentNames [squatAt 10 0, lungeAt 0]
   \<and> mset [lungeAt 0, squatAt 10 0] = mset [squatAt 10 0, lungeAt 0]
   \<and> transform [squatAt 10 0, lungeAt 0] = Inr [tieResult [''Squat'', ''Lunge'']]
   \<and> transform [lungeAt 0, squatAt 10 0] = Inr [tieResult [''Lunge'', ''Squat'']]
   \<and> tieResult [''Lunge'', ''Squat''] \<noteq> tieResult [''Squat'', ''Lunge'']
   \<and> mset (map unorderedContent [tieResult [''Lunge'', ''Squat'']])
       = mset (map unorderedContent [tieResult [''Squat'', ''Lunge'']])
   \<and> consistentWorkouts sampleRows \<and> consistentNames sampleRows
   \<and> consistentOrders sampleRows \<and> distinctOrders sampleRows \<and> consistentSets sampleRows
   \<and> mset (rev sampleRows) = mset sampleRows
   \<and> transform sampleRows = Inr [sampleLegDay, sampleRestDay]
   \<and> transform (rev sampleRows) = Inr [sampleRestDay, sampleLegDay]
   \<and> mset [sampleRestDay, sampleLegDay] = mset [sampleLegDay, sampleRestDay]"
proof -
  have p1: "mset [lungeAt 0, squatAt 10 0] = mset [squatAt 10 0, lungeAt 0]" by simp
  have p2: "mset (rev sampleRows) = mset sampleRows" by simp
  have ne: "tieResult [''Lunge'', ''Squat''] \<noteq> tieResult [''Squat'', ''Lunge'']"
    by (simp add: tieResult_def)
  from reordering_consistent_rows [OF consistent_tie p1]
  have a: "mset (map unorderedContent [tieResult [''Lunge'', ''Squat'']])
       = mset (map unorderedContent [tieResult [''Squat'', ''Lunge'']])"
    unfolding transform_tie by blast
  from reordering_consistent_rows [OF consistent_sampleRows(1,2) p2] consistent_sampleRows(3-5)
  have b: "mset [sampleRestDay, sampleLegDay] = mset [sampleLegDay, sampleRestDay]"
    unfolding transform_sampleRows transform_rev_sampleRows by blast
  from consistent_tie p1 transform_tie ne a consistent_sampleRows p2 transform_sampleRows
    transform_rev_sampleRows b
  show ?thesis by blast
qed

end
